theory Spec2Isabelle
  imports Main "HOL-Library.Sublist"
begin

section \<open>Data model of the session orchestrator\<close>

text \<open>
  The orchestrator class \<^verbatim>\<open>TwitchChannelPointsMiner\<close> is embedded with explicit state
  passing. An exception is a value of \<open>exn\<close>; the language-level ones the file itself can
  raise are \<open>AttributeError\<close> (a method called on \<^verbatim>\<open>None\<close>), \<open>TypeError\<close> (a
  subtraction with \<^verbatim>\<open>None\<close>), \<open>IndexError\<close> (a list read out of range) and
  \<open>RuntimeError\<close> (a dictionary that changes its size while it is iterated over).
  \<open>Failure\<close> stands for any other exception that a collaborator raises.
\<close>

datatype exn =
    StreamerDoesNotExistException
  | AttributeError
  | TypeError
  | IndexError
  | RuntimeError
  | Failure string

text \<open>
  How a call ends: it returns, an exception leaves it, or \<^verbatim>\<open>sys.exit\<close> raises
  \<^verbatim>\<open>SystemExit\<close> with a status.
\<close>

datatype outcome = Returned | Raised exn | SystemExit int

text \<open>
  Modelled from the spec: class \<^verbatim>\<open>Streamer\<close> (classes/Streamer.py) is not part of the
  file. The record has the fields the file reads (\<^verbatim>\<open>channel_points\<close>, \<^verbatim>\<open>history\<close>) and
  the identity and online flag of the spec's data model. \<^verbatim>\<open>history\<close> is a dictionary that
  the file only compares with \<^verbatim>\<open>{}\<close>; it is an association list here.
\<close>

record streamer =
  username :: string
  channel_id :: int
  is_online :: bool
  channel_points :: int
  history :: "(string \<times> int) list"

text \<open>
  Modelled from the spec: class \<^verbatim>\<open>PubsubTopic\<close> (classes/PubsubTopic.py). The file builds
  a topic from a name and either \<^verbatim>\<open>user_id=\<close> or \<^verbatim>\<open>streamer=\<close>.
\<close>

datatype pubsub_topic =
    UserTopic string string
  | StreamerTopic string streamer

text \<open>
  Modelled from the spec: class \<^verbatim>\<open>Twitch\<close> (classes/Twitch.py). The file assigns its
  attribute \<^verbatim>\<open>running\<close> and asks its \<^verbatim>\<open>twitch_login\<close> for the user id and the token.
\<close>

record twitch =
  tw_username :: string
  tw_running :: bool
  tw_user_id :: string
  tw_auth_token :: string

record thread =
  daemon :: bool
  started :: bool

text \<open>
  The attributes \<^verbatim>\<open>__init__\<close> sets, under their own names. The browser, the pool, a
  prediction event and the two settings objects belong to classes outside the file: they
  are the type parameters \<open>'b\<close>, \<open>'p\<close>, \<open>'e\<close>, \<open>'s\<close> and \<open>'t\<close>. \<^verbatim>\<open>None\<close> is
  \<open>None\<close>; a timestamp is a number of seconds.
\<close>

record ('b, 'p, 'e, 's, 't) miner =
  twitch :: twitch
  twitch_browser :: "'b option"
  follow_raid :: bool
  streamers :: "streamer list"
  events_predictions :: "(string \<times> 'e) list"
  minute_watcher_thread :: "thread option"
  ws_pool :: "'p option"
  make_predictions :: bool
  browser_settings :: 's
  bet_settings :: 't
  session_id :: string
  running :: bool
  start_datetime :: "int option"
  original_streamers :: "streamer list"
  logs_file :: "string option"

text \<open>
  The methods of the collaborating classes that the file calls. Each is a parameter: a
  call that can fail returns \<open>Inl\<close> of the exception. The four formatting methods that
  the report calls are among them: \<^verbatim>\<open>BetSettings.__str__\<close>,
  \<^verbatim>\<open>EventPrediction.print_recap\<close>, \<^verbatim>\<open>Streamer.__str__\<close> and
  \<^verbatim>\<open>Streamer.print_history\<close>. The dictionary \<^verbatim>\<open>events_predictions\<close> is shared with
  the threads of the pool: \<open>events_resized k\<close> says that they have changed its size when
  the report asks its iterator for the key number \<open>k\<close>, counted from 0.
\<close>

record ('b, 'p, 'e, 's, 't) collab =
  login :: "twitch \<Rightarrow> exn + twitch"
  get_channel_id :: "string \<Rightarrow> exn + int"
  Streamer :: "string \<Rightarrow> int \<Rightarrow> streamer"
  load_channel_points_context :: "streamer \<Rightarrow> exn + streamer"
  check_streamer_online :: "streamer \<Rightarrow> exn + streamer"
  TwitchBrowser :: "string \<Rightarrow> string \<Rightarrow> 's \<Rightarrow> 'b"
  browser_init :: "'b \<Rightarrow> exn + 'b"
  browser_quit :: "'b \<Rightarrow> exn + 'b"
  WebSocketsPool ::
    "twitch \<Rightarrow> 'b option \<Rightarrow> streamer list \<Rightarrow> 't \<Rightarrow> (string \<times> 'e) list \<Rightarrow> 'p"
  submit :: "'p \<Rightarrow> pubsub_topic \<Rightarrow> exn + 'p"
  pool_end :: "'p \<Rightarrow> exn + 'p"
  bet_settings_str :: "'t \<Rightarrow> exn + string"
  print_recap :: "'e \<Rightarrow> exn + string"
  streamer_str :: "streamer \<Rightarrow> exn + string"
  print_history :: "streamer \<Rightarrow> exn + string"
  events_resized :: "nat \<Rightarrow> bool"

text \<open>
  What a call does besides changing the miner, in the order it does it: the calls made to
  collaborators, the assignment to \<^verbatim>\<open>running\<close>, the lines printed and logged, the
  sleeps. A log line carries the values it is formatted from; it is logged once the
  formatting calls of its text have returned.
\<close>

datatype effect =
    LogError string
  | LogStartSession string
  | Login
  | Sleep
  | GetChannelId string
  | NewStreamer string int
  | LogStreamerNotExist string
  | LoadChannelPointsContext streamer
  | CheckStreamerOnline streamer
  | BrowserInit
  | ThreadStart
  | Submit pubsub_topic
  | BrowserQuit
  | SetRunning bool
  | PoolEnd
  | Print string
  | LogEndSession string
  | LogLogsFile string
  | LogDuration int
  | LogBetSettings
  | LogRecap string
  | LogGained streamer int
  | LogHistory streamer

section \<open>The final report\<close>

text \<open>
  The loop of \<^verbatim>\<open>__print_report\<close> over the keys of \<^verbatim>\<open>self.events_predictions\<close>, from
  key number \<open>k\<close> on. The iterator raises \<^verbatim>\<open>RuntimeError\<close> when it is asked for a key,
  also for the one after the last, and the dictionary has changed its size; then
  \<^verbatim>\<open>print_recap\<close> is called, and the line is logged when it returns. The spec keeps
  every prediction event for the lifetime of the session (section 3), so the lookup of a
  key that the iterator gave finds its event.
\<close>

fun report_recaps ::
  "('b, 'p, 'e, 's, 't) collab \<Rightarrow> nat \<Rightarrow> (string \<times> 'e) list \<Rightarrow> effect list \<times> outcome" where
  "report_recaps C k [] =
     (if events_resized C k then ([], Raised RuntimeError) else ([], Returned))"
| "report_recaps C k (kv # kvs) =
     (if events_resized C k then ([], Raised RuntimeError)
      else
        (case print_recap C (snd kv) of
           Inl e \<Rightarrow> ([], Raised e)
         | Inr text \<Rightarrow>
             (case report_recaps C (Suc k) kvs of (t, r) \<Rightarrow> (LogRecap (fst kv) # t, r))))"

text \<open>
  The loop over \<^verbatim>\<open>range(0, len(self.streamers))\<close>. The index is always in range of
  \<^verbatim>\<open>self.streamers\<close>. The text of the line is an f-string: it formats the streamer
  first (\<^verbatim>\<open>Streamer.__str__\<close>), then reads \<^verbatim>\<open>self.original_streamers\<close>, which raises
  \<^verbatim>\<open>IndexError\<close> at an index it does not have, and only then is the line logged. A
  streamer with a history has a second line, from \<^verbatim>\<open>print_history\<close>.
\<close>

fun report_streamers ::
  "('b, 'p, 'e, 's, 't) collab \<Rightarrow> streamer list \<Rightarrow> streamer list \<Rightarrow> nat list
     \<Rightarrow> effect list \<times> outcome" where
  "report_streamers C ss os [] = ([], Returned)"
| "report_streamers C ss os (i # is) =
     (case streamer_str C (ss ! i) of
        Inl e \<Rightarrow> ([], Raised e)
      | Inr text \<Rightarrow>
          if i < length os then
            (if history (ss ! i) \<noteq> [] then
               (case print_history C (ss ! i) of
                  Inl e \<Rightarrow>
                    ([LogGained (ss ! i) (channel_points (ss ! i) - channel_points (os ! i))],
                     Raised e)
                | Inr lines \<Rightarrow>
                    (case report_streamers C ss os is of
                       (t, r) \<Rightarrow>
                         (LogGained (ss ! i) (channel_points (ss ! i) - channel_points (os ! i))
                            # LogHistory (ss ! i) # t, r)))
             else
               (case report_streamers C ss os is of
                  (t, r) \<Rightarrow>
                    (LogGained (ss ! i) (channel_points (ss ! i) - channel_points (os ! i))
                       # t, r)))
          else ([], Raised IndexError))"

text \<open>
  The block under \<^verbatim>\<open>if self.make_predictions\<close>: an empty line, the settings (formatted
  by \<^verbatim>\<open>BetSettings.__str__\<close>), the recaps, an empty line.
\<close>

definition report_predictions ::
  "('b, 'p, 'e, 's, 't) collab \<Rightarrow> ('b, 'p, 'e, 's, 't) miner \<Rightarrow> effect list \<times> outcome" where
  "report_predictions C m =
     (if make_predictions m then
        (case bet_settings_str C (bet_settings m) of
           Inl e \<Rightarrow> ([Print []], Raised e)
         | Inr text \<Rightarrow>
             (case report_recaps C 0 (events_predictions m) of
                (t, r) \<Rightarrow>
                  if r = Returned then ([Print [], LogBetSettings] @ t @ [Print []], Returned)
                  else ([Print [], LogBetSettings] @ t, r)))
      else ([], Returned))"

text \<open>
  \<^verbatim>\<open>__print_report\<close>, at the time \<open>now\<close>. It changes nothing of the miner, so the result
  is the effects in order and how the call ends. The duration is
  \<^verbatim>\<open>datetime.now() - self.start_datetime\<close>, a \<^verbatim>\<open>TypeError\<close> when the session has no
  start time. No exception is caught: the first one ends the report, after the lines
  logged so far.
\<close>

definition print_report ::
  "('b, 'p, 'e, 's, 't) collab \<Rightarrow> int \<Rightarrow> ('b, 'p, 'e, 's, 't) miner \<Rightarrow> effect list \<times> outcome" where
  "print_report C now m =
     (let opening = [Print [CHR 0x0A], LogEndSession (session_id m)]
            @ (case logs_file m of None \<Rightarrow> [] | Some f \<Rightarrow> [LogLogsFile f])
      in case start_datetime m of
           None \<Rightarrow> (opening, Raised TypeError)
         | Some t0 \<Rightarrow>
             (case report_predictions C m of
                (recap, r1) \<Rightarrow>
                  if r1 \<noteq> Returned then (opening @ [LogDuration (now - t0)] @ recap, r1)
                  else
                    (case report_streamers C (streamers m) (original_streamers m)
                            [0..<length (streamers m)] of
                       (t, r) \<Rightarrow> (opening @ [LogDuration (now - t0)] @ recap @ t, r))))"

section \<open>Shutdown\<close>

text \<open>
  \<^verbatim>\<open>end(self, signum, frame)\<close>, the handler of the three signals; it ignores both
  arguments. The result is the miner as the call leaves it, the effects in order, and how
  the call ends. An exception is caught nowhere in the method, so the first one ends it; a
  call that gets through ends in \<^verbatim>\<open>sys.exit(0)\<close> after the last sleep.
\<close>

definition miner_end ::
  "('b, 'p, 'e, 's, 't) collab \<Rightarrow> int \<Rightarrow> ('b, 'p, 'e, 's, 't) miner
     \<Rightarrow> ('b, 'p, 'e, 's, 't) miner \<times> effect list \<times> outcome" where
  "miner_end C now m =
     (case (case twitch_browser m of
              None \<Rightarrow> Inr (m, [])
            | Some b \<Rightarrow>
                (case browser_quit C b of
                   Inl e \<Rightarrow> Inl e
                 | Inr b' \<Rightarrow> Inr (m\<lparr>twitch_browser := Some b'\<rparr>, [BrowserQuit]))) of
        Inl e \<Rightarrow> (m, [BrowserQuit], Raised e)
      | Inr (m1, t1) \<Rightarrow>
          (let m2 = m1\<lparr>running := False, twitch := (twitch m1)\<lparr>tw_running := False\<rparr>\<rparr>;
               t2 = t1 @ [SetRunning False]
           in case ws_pool m2 of
                None \<Rightarrow> (m2, t2, Raised AttributeError)
              | Some p \<Rightarrow>
                  (case pool_end C p of
                     Inl e \<Rightarrow> (m2, t2 @ [PoolEnd], Raised e)
                   | Inr p' \<Rightarrow>
                       (let m3 = m2\<lparr>ws_pool := Some p'\<rparr>
                        in case print_report C now m3 of
                             (t, Returned) \<Rightarrow> (m3, t2 @ [PoolEnd] @ t @ [Sleep], SystemExit 0)
                           | (t, r) \<Rightarrow> (m3, t2 @ [PoolEnd] @ t, r)))))"

section \<open>Construction\<close>

text \<open>
  \<^verbatim>\<open>__init__\<close>. The \<^verbatim>\<open>Twitch\<close> object, the session id (a fresh uuid) and the name of
  the log file (from \<^verbatim>\<open>configure_loggers\<close>) come from outside the file and are
  arguments. The three \<^verbatim>\<open>signal.signal\<close> calls register \<open>miner_end\<close> as the handler of
  the interrupt, fault and termination signals.
\<close>

definition init ::
  "twitch \<Rightarrow> string \<Rightarrow> string option \<Rightarrow> bool \<Rightarrow> bool \<Rightarrow> 's \<Rightarrow> 't
     \<Rightarrow> ('b, 'p, 'e, 's, 't) miner" where
  "init tw sid logs mp fr bs bt =
     \<lparr>twitch = tw, twitch_browser = None, follow_raid = fr, streamers = [],
      events_predictions = [], minute_watcher_thread = None, ws_pool = None,
      make_predictions = mp, browser_settings = bs, bet_settings = bt, session_id = sid,
      running = False, start_datetime = None, original_streamers = [], logs_file = logs\<rparr>"

section \<open>Starting a session\<close>

text \<open>
  \<^verbatim>\<open>str.lower\<close> and \<^verbatim>\<open>str.strip\<close> on ASCII text: the letters \<open>A\<close> to \<open>Z\<close> move
  to lower case, and the white space characters (tab to carriage return, the four
  separators from 28 to 31, the space) are taken off both ends.
\<close>

definition lower_char :: "char \<Rightarrow> char" where
  "lower_char c =
     (let k = (of_char c :: nat) in if 65 \<le> k \<and> k \<le> 90 then char_of (k + 32) else c)"

definition lower :: "string \<Rightarrow> string" where
  "lower s = map lower_char s"

definition is_space :: "char \<Rightarrow> bool" where
  "is_space c =
     (let k = (of_char c :: nat) in (9 \<le> k \<and> k \<le> 13) \<or> (28 \<le> k \<and> k \<le> 32))"

definition strip :: "string \<Rightarrow> string" where
  "strip s = rev (dropWhile is_space (rev (dropWhile is_space s)))"

text \<open>
  The first loop of \<^verbatim>\<open>run\<close>, over the configured names, with the list
  \<^verbatim>\<open>self.streamers\<close> as it stands. The statement
  \<^verbatim>\<open>streamer_username.lower().strip()\<close> computes a string and drops it: a Python string
  is immutable, so the name itself stays as it is. Only
  \<^verbatim>\<open>StreamerDoesNotExistException\<close> is caught; any other exception leaves the loop.
\<close>

fun resolve_streamers ::
  "('b, 'p, 'e, 's, 't) collab \<Rightarrow> string list \<Rightarrow> streamer list
     \<Rightarrow> streamer list \<times> effect list \<times> outcome" where
  "resolve_streamers C [] ss = (ss, [], Returned)"
| "resolve_streamers C (n # ns) ss =
     (let dropped = strip (lower n)
      in case get_channel_id C n of
           Inr cid \<Rightarrow>
             (case resolve_streamers C ns (ss @ [Streamer C n cid]) of
                (ss', t, r) \<Rightarrow> (ss', Sleep # GetChannelId n # NewStreamer n cid # t, r))
         | Inl e \<Rightarrow>
             (if e = StreamerDoesNotExistException then
                (case resolve_streamers C ns ss of
                   (ss', t, r) \<Rightarrow> (ss', Sleep # GetChannelId n # LogStreamerNotExist n # t, r))
              else (ss, [Sleep, GetChannelId n], Raised e)))"

text \<open>
  The second loop: each streamer object is updated in place by the two calls, so the list
  keeps its length and its order.
\<close>

fun load_streamers ::
  "('b, 'p, 'e, 's, 't) collab \<Rightarrow> streamer list \<Rightarrow> streamer list \<times> effect list \<times> outcome" where
  "load_streamers C [] = ([], [], Returned)"
| "load_streamers C (s # ss) =
     (case load_channel_points_context C s of
        Inl e \<Rightarrow> (s # ss, [Sleep, LoadChannelPointsContext s], Raised e)
      | Inr s1 \<Rightarrow>
          (case check_streamer_online C s1 of
             Inl e \<Rightarrow>
               (s1 # ss, [Sleep, LoadChannelPointsContext s, CheckStreamerOnline s1], Raised e)
           | Inr s2 \<Rightarrow>
               (case load_streamers C ss of
                  (ss', t, r) \<Rightarrow>
                    (s2 # ss',
                     Sleep # LoadChannelPointsContext s # CheckStreamerOnline s1 # t, r))))"

text \<open>The topics one streamer adds, in the order of the loop body.\<close>

definition streamer_topics :: "bool \<Rightarrow> bool \<Rightarrow> streamer \<Rightarrow> pubsub_topic list" where
  "streamer_topics fr mp s =
     [StreamerTopic ''video-playback-by-id'' s]
       @ (if fr then [StreamerTopic ''raid'' s] else [])
       @ (if mp then [StreamerTopic ''predictions-channel-v1'' s] else [])"

text \<open>The list \<^verbatim>\<open>topics\<close> that \<^verbatim>\<open>run\<close> builds before it submits it.\<close>

definition run_topics :: "('b, 'p, 'e, 's, 't) miner \<Rightarrow> pubsub_topic list" where
  "run_topics m =
     [UserTopic ''community-points-user-v1'' (tw_user_id (twitch m))]
       @ (if make_predictions m
          then [UserTopic ''predictions-user-v1'' (tw_user_id (twitch m))] else [])
       @ concat (map (streamer_topics (follow_raid m) (make_predictions m)) (streamers m))"

fun submit_all ::
  "('b, 'p, 'e, 's, 't) collab \<Rightarrow> 'p \<Rightarrow> pubsub_topic list \<Rightarrow> 'p \<times> effect list \<times> outcome" where
  "submit_all C p [] = (p, [], Returned)"
| "submit_all C p (tp # tps) =
     (case submit C p tp of
        Inl e \<Rightarrow> (p, [Submit tp], Raised e)
      | Inr p' \<Rightarrow>
          (case submit_all C p' tps of (q, t, r) \<Rightarrow> (q, Submit tp # t, r)))"

text \<open>
  The \<^verbatim>\<open>else\<close> branch of \<^verbatim>\<open>run\<close> up to the last \<^verbatim>\<open>submit\<close>: the miner as the
  branch leaves it, the effects, and \<open>Returned\<close> when every call came back.
\<close>

definition run_setup ::
  "('b, 'p, 'e, 's, 't) collab \<Rightarrow> int \<Rightarrow> ('b, 'p, 'e, 's, 't) miner \<Rightarrow> string list
     \<Rightarrow> ('b, 'p, 'e, 's, 't) miner \<times> effect list \<times> outcome" where
  "run_setup C now m names =
     (let m1 = m\<lparr>running := True, start_datetime := Some now\<rparr>;
          t1 = [LogStartSession (session_id m), Login]
      in case login C (twitch m1) of
           Inl e \<Rightarrow> (m1, t1, Raised e)
         | Inr w \<Rightarrow>
             (case resolve_streamers C names (streamers m1) of
                (ss, t2, r2) \<Rightarrow>
                  if r2 \<noteq> Returned then (m1\<lparr>twitch := w, streamers := ss\<rparr>, t1 @ t2, r2)
                  else
                    (case load_streamers C ss of
                       (ss', t3, r3) \<Rightarrow>
                         if r3 \<noteq> Returned
                         then (m1\<lparr>twitch := w, streamers := ss'\<rparr>, t1 @ t2 @ t3, r3)
                         else
                           (let m3 = m1\<lparr>twitch := w, streamers := ss',
                                        original_streamers := ss'\<rparr>;
                                b0 = TwitchBrowser C (tw_auth_token w) (session_id m3)
                                       (browser_settings m3)
                            in case (if make_predictions m3
                                     then map_sum id Some (browser_init C b0)
                                     else Inr (twitch_browser m3)) of
                                 Inl e \<Rightarrow>
                                   (m3\<lparr>twitch_browser := Some b0\<rparr>,
                                    t1 @ t2 @ t3 @ [BrowserInit], Raised e)
                               | Inr b \<Rightarrow>
                                   (let t4 = (if make_predictions m3 then [BrowserInit] else [])
                                               @ [ThreadStart];
                                        m4 = m3\<lparr>twitch_browser := b,
                                                minute_watcher_thread :=
                                                  Some \<lparr>daemon = True, started = True\<rparr>\<rparr>;
                                        p0 = WebSocketsPool C (twitch m4) (twitch_browser m4)
                                               (streamers m4) (bet_settings m4)
                                               (events_predictions m4)
                                    in case submit_all C p0 (run_topics m4) of
                                         (p, t5, r5) \<Rightarrow>
                                           (m4\<lparr>ws_pool := Some p\<rparr>,
                                            t1 @ t2 @ t3 @ t4 @ t5, r5))))))"

text \<open>
  The loop \<^verbatim>\<open>while self.running: time.sleep(1.5)\<close>. Nothing in the loop changes the
  miner; what happens during the \<open>k\<close>-th sleep is the environment \<open>env k\<close>. Other threads
  may change fields of the miner. A signal handler, which Python runs in this thread,
  has its effects and may raise, which ends the loop with that outcome: \<open>miner_end\<close> as a
  handler always does, it ends in \<^verbatim>\<open>sys.exit\<close>. The loop may run forever: it then has
  no result, \<open>None\<close>. The effects so far are the argument \<open>acc\<close>.
\<close>

partial_function (option) wait_loop ::
  "(nat \<Rightarrow> ('b, 'p, 'e, 's, 't) miner \<Rightarrow> ('b, 'p, 'e, 's, 't) miner \<times> effect list \<times> outcome)
     \<Rightarrow> nat \<Rightarrow> effect list \<Rightarrow> ('b, 'p, 'e, 's, 't) miner
     \<Rightarrow> (('b, 'p, 'e, 's, 't) miner \<times> effect list \<times> outcome) option" where
  "wait_loop env k acc m =
     (if running m then
        (case env k m of
           (m', te, r) \<Rightarrow>
             if r = Returned then wait_loop env (Suc k) (acc @ Sleep # te) m'
             else Some (m', acc @ Sleep # te, r))
      else Some (m, acc, Returned))"

definition multiple_session_message :: string where
  "multiple_session_message =
     ''You can'' @ [CHR 0x27] @ ''t start multiple session of this istance!''"

definition run ::
  "('b, 'p, 'e, 's, 't) collab \<Rightarrow> int
     \<Rightarrow> (nat \<Rightarrow> ('b, 'p, 'e, 's, 't) miner \<Rightarrow> ('b, 'p, 'e, 's, 't) miner \<times> effect list \<times> outcome)
     \<Rightarrow> ('b, 'p, 'e, 's, 't) miner \<Rightarrow> string list
     \<Rightarrow> (('b, 'p, 'e, 's, 't) miner \<times> effect list \<times> outcome) option" where
  "run C now env m names =
     (if running m then Some (m, [LogError multiple_session_message], Returned)
      else
        (case run_setup C now m names of
           (m', t, r) \<Rightarrow> if r \<noteq> Returned then Some (m', t, r) else wait_loop env 0 t m'))"

definition mine ::
  "('b, 'p, 'e, 's, 't) collab \<Rightarrow> int
     \<Rightarrow> (nat \<Rightarrow> ('b, 'p, 'e, 's, 't) miner \<Rightarrow> ('b, 'p, 'e, 's, 't) miner \<times> effect list \<times> outcome)
     \<Rightarrow> ('b, 'p, 'e, 's, 't) miner \<Rightarrow> string list
     \<Rightarrow> (('b, 'p, 'e, 's, 't) miner \<times> effect list \<times> outcome) option" where
  "mine C now env m names = run C now env m names"

section \<open>Events between start and shutdown\<close>

text \<open>
  Modelled from the spec: the event dispatcher (classes/WebSocketsPool.py) is not part of
  the file. It is given the list \<^verbatim>\<open>self.streamers\<close> itself, not a copy; by sections 3
  and 4.2 of the spec the registry is made at the start of the session and an event
  updates the streamer objects in place. What an event does to one streamer is the
  parameter \<open>h\<close>.
\<close>

definition dispatch ::
  "('v \<Rightarrow> streamer \<Rightarrow> streamer) \<Rightarrow> 'v \<Rightarrow> ('b, 'p, 'e, 's, 't) miner
     \<Rightarrow> ('b, 'p, 'e, 's, 't) miner" where
  "dispatch h ev m = m\<lparr>streamers := map (h ev) (streamers m)\<rparr>"

definition dispatch_all ::
  "('v \<Rightarrow> streamer \<Rightarrow> streamer) \<Rightarrow> 'v list \<Rightarrow> ('b, 'p, 'e, 's, 't) miner
     \<Rightarrow> ('b, 'p, 'e, 's, 't) miner" where
  "dispatch_all h evs m = fold (dispatch h) evs m"

text \<open>
  Modelled from the spec: the two events that reach the registry. By sections 3 and 4.2
  of the spec, a balance-change event sets the balance of the streamer it names and
  appends a history entry, a playback event sets the online flag, and the identity of a
  streamer never changes during a session.
\<close>

datatype registry_event =
    BalanceChanged int int string int
  | OnlineChanged int bool

fun apply_event :: "registry_event \<Rightarrow> streamer \<Rightarrow> streamer" where
  "apply_event (BalanceChanged cid balance reason delta) s =
     (if channel_id s = cid
      then s\<lparr>channel_points := balance, history := history s @ [(reason, delta)]\<rparr>
      else s)"
| "apply_event (OnlineChanged cid b) s =
     (if channel_id s = cid then s\<lparr>is_online := b\<rparr> else s)"

section \<open>Reading a list of effects\<close>

text \<open>The four steps of a shutdown, as they show in the effects.\<close>

fun is_step :: "effect \<Rightarrow> bool" where
  "is_step BrowserQuit = True"
| "is_step (SetRunning b) = True"
| "is_step PoolEnd = True"
| "is_step (LogEndSession sid) = True"
| "is_step _ = False"

definition steps :: "effect list \<Rightarrow> effect list" where
  "steps t = filter is_step t"

text \<open>
  The order of section 5 of the spec: the flag, the actuator, the pool, the report.
\<close>

definition spec_shutdown_order :: "string \<Rightarrow> effect list" where
  "spec_shutdown_order sid = [SetRunning False, BrowserQuit, PoolEnd, LogEndSession sid]"

text \<open>The order of \<open>miner_end\<close>: the browser when there is one, the flag, the pool, the report.\<close>

definition shutdown_order :: "('b, 'p, 'e, 's, 't) miner \<Rightarrow> effect list" where
  "shutdown_order m =
     (case twitch_browser m of None \<Rightarrow> [] | Some b \<Rightarrow> [BrowserQuit])
       @ [SetRunning False, PoolEnd, LogEndSession (session_id m)]"

text \<open>
  Two invocations of the handler, the second on the miner the first one left: a second
  signal that arrives during the last sleep of the first invocation finds that miner.
\<close>

definition end_twice ::
  "('b, 'p, 'e, 's, 't) collab \<Rightarrow> int \<Rightarrow> int \<Rightarrow> ('b, 'p, 'e, 's, 't) miner
     \<Rightarrow> ('b, 'p, 'e, 's, 't) miner \<times> effect list \<times> outcome" where
  "end_twice C now now' m =
     (case miner_end C now m of
        (m1, t1, r1) \<Rightarrow>
          (case miner_end C now' m1 of (m2, t2, r2) \<Rightarrow> (m2, t1 @ t2, r2)))"

text \<open>
  The scenario of section 5 of the spec for two invocations: one report, and no resource
  released twice.
\<close>

definition spec_shutdown_once :: "string \<Rightarrow> effect list \<Rightarrow> bool" where
  "spec_shutdown_once sid t =
     (count_list t (LogEndSession sid) = 1 \<and> count_list t BrowserQuit \<le> 1
        \<and> count_list t PoolEnd \<le> 1)"

fun gained :: "effect list \<Rightarrow> (streamer \<times> int) list" where
  "gained [] = []"
| "gained (LogGained s d # t) = (s, d) # gained t"
| "gained (x # t) = gained t"

fun submitted :: "effect list \<Rightarrow> pubsub_topic list" where
  "submitted [] = []"
| "submitted (Submit tp # t) = tp # submitted t"
| "submitted (x # t) = submitted t"

fun queried :: "effect list \<Rightarrow> string list" where
  "queried [] = []"
| "queried (GetChannelId n # t) = n # queried t"
| "queried (x # t) = queried t"

fun constructed :: "effect list \<Rightarrow> (string \<times> int) list" where
  "constructed [] = []"
| "constructed (NewStreamer n cid # t) = (n, cid) # constructed t"
| "constructed (x # t) = constructed t"

fun not_found :: "effect list \<Rightarrow> string list" where
  "not_found [] = []"
| "not_found (LogStreamerNotExist n # t) = n # not_found t"
| "not_found (x # t) = not_found t"

text \<open>The names that resolve, each with its channel id, in the configured order.\<close>

fun resolvable :: "('b, 'p, 'e, 's, 't) collab \<Rightarrow> string list \<Rightarrow> (string \<times> int) list" where
  "resolvable C [] = []"
| "resolvable C (n # ns) =
     (case get_channel_id C n of
        Inr cid \<Rightarrow> (n, cid) # resolvable C ns
      | Inl e \<Rightarrow> resolvable C ns)"

text \<open>
  The topic set of section 4.5 of the spec, for an account id, the two switches and the
  streamers.
\<close>

definition spec_topics :: "string \<Rightarrow> bool \<Rightarrow> bool \<Rightarrow> streamer list \<Rightarrow> pubsub_topic set" where
  "spec_topics uid mp fr ss =
     {UserTopic ''community-points-user-v1'' uid}
       \<union> (if mp then insert (UserTopic ''predictions-user-v1'' uid)
                       (StreamerTopic ''predictions-channel-v1'' ` set ss)
           else {})
       \<union> (if fr then StreamerTopic ''raid'' ` set ss else {})
       \<union> StreamerTopic ''video-playback-by-id'' ` set ss"

text \<open>
  The miner at the \<open>j\<close>-th test of the flag, and the effects of the \<open>j\<close> sleeps before
  it, for a loop that starts at sleep \<open>k\<close>.
\<close>

fun poll ::
  "(nat \<Rightarrow> ('b, 'p, 'e, 's, 't) miner \<Rightarrow> ('b, 'p, 'e, 's, 't) miner \<times> effect list \<times> outcome)
     \<Rightarrow> nat \<Rightarrow> ('b, 'p, 'e, 's, 't) miner \<Rightarrow> nat \<Rightarrow> ('b, 'p, 'e, 's, 't) miner" where
  "poll env k m 0 = m"
| "poll env k m (Suc j) = poll env (Suc k) (fst (env k m)) j"

fun slept ::
  "(nat \<Rightarrow> ('b, 'p, 'e, 's, 't) miner \<Rightarrow> ('b, 'p, 'e, 's, 't) miner \<times> effect list \<times> outcome)
     \<Rightarrow> nat \<Rightarrow> ('b, 'p, 'e, 's, 't) miner \<Rightarrow> nat \<Rightarrow> effect list" where
  "slept env k m 0 = []"
| "slept env k m (Suc j) =
     Sleep # fst (snd (env k m)) @ slept env (Suc k) (fst (env k m)) j"


definition report_ok :: "('b, 'p, 'e, 's, 't) collab \<Rightarrow> ('b, 'p, 'e, 's, 't) miner \<Rightarrow> bool" where
  "report_ok C m =
     (start_datetime m \<noteq> None
      \<and> (make_predictions m \<longrightarrow>
            \<not> isl (bet_settings_str C (bet_settings m))
          \<and> (\<forall>k \<le> length (events_predictions m). \<not> events_resized C k)
          \<and> (\<forall>kv \<in> set (events_predictions m). \<not> isl (print_recap C (snd kv))))
      \<and> length (streamers m) \<le> length (original_streamers m)
      \<and> (\<forall>s \<in> set (streamers m).
            \<not> isl (streamer_str C s) \<and> (history s \<noteq> [] \<longrightarrow> \<not> isl (print_history C s))))"


text \<open>
  A name at which the loop over the names stops: its resolution raises something else
  than \<^verbatim>\<open>StreamerDoesNotExistException\<close>.
\<close>

definition stops_at :: "('b, 'p, 'e, 's, 't) collab \<Rightarrow> string \<Rightarrow> bool" where
  "stops_at C n =
     (case get_channel_id C n of
        Inl e \<Rightarrow> e \<noteq> StreamerDoesNotExistException
      | Inr cid \<Rightarrow> False)"

section \<open>A session to evaluate on\<close>

text \<open>
  The scenario of section 8 of the spec: streamer alice has channel id 123 and starts at
  500 points; no other name exists. The browser counts its \<^verbatim>\<open>quit\<close> calls, the pool is
  the list of its topics.
\<close>

definition demo_twitch :: twitch where
  "demo_twitch =
     \<lparr>tw_username = ''operator'', tw_running = True, tw_user_id = ''42'',
      tw_auth_token = ''token''\<rparr>"

definition demo_collab :: "(nat, pubsub_topic list, unit, unit, unit) collab" where
  "demo_collab =
     \<lparr>login = Inr,
      get_channel_id = (\<lambda>n. if n = ''alice'' then Inr 123
                             else Inl StreamerDoesNotExistException),
      Streamer = (\<lambda>n cid. \<lparr>username = n, channel_id = cid, is_online = False,
                            channel_points = 0, history = []\<rparr>),
      load_channel_points_context = (\<lambda>s. Inr (s\<lparr>channel_points := 500\<rparr>)),
      check_streamer_online = (\<lambda>s. Inr (s\<lparr>is_online := True\<rparr>)),
      TwitchBrowser = (\<lambda>token sid settings. 0),
      browser_init = Inr,
      browser_quit = (\<lambda>b. Inr (Suc b)),
      WebSocketsPool = (\<lambda>tw b ss bt evs. []),
      submit = (\<lambda>p tp. Inr (p @ [tp])),
      pool_end = (\<lambda>p. Inr []),
      bet_settings_str = (\<lambda>bt. Inr ''settings''),
      print_recap = (\<lambda>ev. Inr ''recap''),
      streamer_str = (\<lambda>s. Inr (username s)),
      print_history = (\<lambda>s. Inr ''history''),
      events_resized = (\<lambda>k. False)\<rparr>"

definition demo_miner :: "(nat, pubsub_topic list, unit, unit, unit) miner" where
  "demo_miner = init demo_twitch ''session'' None True True () ()"

definition alice :: streamer where
  "alice =
     \<lparr>username = ''alice'', channel_id = 123, is_online = True, channel_points = 500,
      history = []\<rparr>"

definition demo_topics :: "pubsub_topic list" where
  "demo_topics =
     [UserTopic ''community-points-user-v1'' ''42'', UserTopic ''predictions-user-v1'' ''42'',
      StreamerTopic ''video-playback-by-id'' alice, StreamerTopic ''raid'' alice,
      StreamerTopic ''predictions-channel-v1'' alice]"

definition demo_started :: "(nat, pubsub_topic list, unit, unit, unit) miner" where
  "demo_started =
     \<lparr>twitch = demo_twitch, twitch_browser = Some 0, follow_raid = True, streamers = [alice],
      events_predictions = [], minute_watcher_thread = Some \<lparr>daemon = True, started = True\<rparr>,
      ws_pool = Some demo_topics,
      make_predictions = True, browser_settings = (), bet_settings = (),
      session_id = ''session'', running = True, start_datetime = Some 100,
      original_streamers = [alice], logs_file = None\<rparr>"


text \<open>The started session after one shutdown at time 160, and the effects of that shutdown.\<close>

definition demo_ended :: "(nat, pubsub_topic list, unit, unit, unit) miner" where
  "demo_ended =
     demo_started\<lparr>twitch_browser := Some 1, running := False,
                   twitch := demo_twitch\<lparr>tw_running := False\<rparr>, ws_pool := Some []\<rparr>"

definition demo_end_effects :: "effect list" where
  "demo_end_effects =
     [BrowserQuit, SetRunning False, PoolEnd, Print [CHR 0x0A], LogEndSession ''session'',
      LogDuration 60, Print [], LogBetSettings, Print [], LogGained alice 0, Sleep]"

text \<open>Collaborators for which every name has a channel.\<close>

definition lenient_collab :: "(nat, pubsub_topic list, unit, unit, unit) collab" where
  "lenient_collab = demo_collab\<lparr>get_channel_id := (\<lambda>n. Inr (int (length n)))\<rparr>"

text \<open>
  Three environments of the waiting loop: nothing happens; another thread clears the flag
  during sleep \<open>n\<close>; a signal arrives during sleep \<open>n\<close> and the handler runs in the
  thread of the loop.
\<close>

definition quiet ::
  "nat \<Rightarrow> ('b, 'p, 'e, 's, 't) miner \<Rightarrow> ('b, 'p, 'e, 's, 't) miner \<times> effect list \<times> outcome" where
  "quiet k m = (m, [], Returned)"

definition cleared_during ::
  "nat \<Rightarrow> nat \<Rightarrow> ('b, 'p, 'e, 's, 't) miner
     \<Rightarrow> ('b, 'p, 'e, 's, 't) miner \<times> effect list \<times> outcome" where
  "cleared_during n k m =
     (if k = n then (m\<lparr>running := False\<rparr>, [], Returned) else (m, [], Returned))"

definition signal_during ::
  "('b, 'p, 'e, 's, 't) collab \<Rightarrow> int \<Rightarrow> nat \<Rightarrow> nat \<Rightarrow> ('b, 'p, 'e, 's, 't) miner
     \<Rightarrow> ('b, 'p, 'e, 's, 't) miner \<times> effect list \<times> outcome" where
  "signal_during C now n k m = (if k = n then miner_end C now m else (m, [], Returned))"

text \<open>The effects of the start of the session, with the names alice and nobody.\<close>

definition demo_start_effects :: "effect list" where
  "demo_start_effects =
     [LogStartSession ''session'', Login, Sleep, GetChannelId ''alice'',
      NewStreamer ''alice'' 123, Sleep, GetChannelId ''nobody'', LogStreamerNotExist ''nobody'',
      Sleep,
      LoadChannelPointsContext (alice\<lparr>is_online := False, channel_points := 0\<rparr>),
      CheckStreamerOnline (alice\<lparr>is_online := False\<rparr>),
      BrowserInit, ThreadStart] @ map Submit demo_topics"

section \<open>Facts about the report and the shutdown\<close>

lemma steps_simps [simp]:
  "steps [] = []"
  "steps (x # xs) = (if is_step x then x # steps xs else steps xs)"
  "steps (xs @ ys) = steps xs @ steps ys"
  by (simp_all add: steps_def)

lemma report_recaps_facts:
  "report_recaps C k kvs = (t, r) \<Longrightarrow> steps t = [] \<and> (r = Returned \<or> (\<exists>e. r = Raised e))"
  by (induction kvs arbitrary: k t r) (auto split: if_splits sum.splits prod.splits)

lemma report_streamers_facts:
  "report_streamers C ss os is = (t, r) \<Longrightarrow> steps t = [] \<and> (r = Returned \<or> (\<exists>e. r = Raised e))"
  by (induction "is" arbitrary: t r) (auto split: if_splits sum.splits prod.splits)

lemma report_predictions_facts:
  "report_predictions C m = (t, r) \<Longrightarrow> steps t = [] \<and> (r = Returned \<or> (\<exists>e. r = Raised e))"
  by (auto simp: report_predictions_def split: if_splits sum.splits prod.splits
           dest: report_recaps_facts)

lemma print_report_facts:
  assumes "print_report C now m = (t, r)"
  shows "steps t = [LogEndSession (session_id m)]" and "r = Returned \<or> (\<exists>e. r = Raised e)"
  using assms
  by (auto simp: print_report_def Let_def split: option.splits prod.splits if_splits
           dest: report_predictions_facts report_streamers_facts)

lemma report_predictions_frame [simp]:
  "report_predictions C (m\<lparr>twitch_browser := b\<rparr>) = report_predictions C m"
  "report_predictions C (m\<lparr>running := r\<rparr>) = report_predictions C m"
  "report_predictions C (m\<lparr>twitch := w\<rparr>) = report_predictions C m"
  "report_predictions C (m\<lparr>ws_pool := p\<rparr>) = report_predictions C m"
  by (simp_all add: report_predictions_def split: sum.splits)

lemma print_report_frame [simp]:
  "print_report C now (m\<lparr>twitch_browser := b\<rparr>) = print_report C now m"
  "print_report C now (m\<lparr>running := r\<rparr>) = print_report C now m"
  "print_report C now (m\<lparr>twitch := w\<rparr>) = print_report C now m"
  "print_report C now (m\<lparr>ws_pool := p\<rparr>) = print_report C now m"
  by (simp_all add: print_report_def Let_def split: option.splits prod.splits)

lemma miner_end_exitD:
  assumes "miner_end C now m = (m', tr, SystemExit k)"
  shows "\<exists>p p' t. k = 0 \<and> ws_pool m = Some p \<and> pool_end C p = Inr p'
           \<and> print_report C now m = (t, Returned)
           \<and> (case twitch_browser m of None \<Rightarrow> twitch_browser m' = None
                | Some b \<Rightarrow> \<exists>b'. browser_quit C b = Inr b' \<and> twitch_browser m' = Some b')
           \<and> tr = (case twitch_browser m of None \<Rightarrow> [] | Some b \<Rightarrow> [BrowserQuit])
                    @ [SetRunning False, PoolEnd] @ t @ [Sleep]
           \<and> m' = m\<lparr>twitch_browser := twitch_browser m', running := False,
                      twitch := (twitch m)\<lparr>tw_running := False\<rparr>, ws_pool := Some p'\<rparr>"
  using assms
  by (auto simp: miner_end_def Let_def split: option.splits sum.splits prod.splits outcome.splits
           dest: print_report_facts(2))

lemma demo_end: "miner_end demo_collab 160 demo_started = (demo_ended, demo_end_effects, SystemExit 0)"
  by (simp add: miner_end_def print_report_def report_predictions_def demo_collab_def
        demo_started_def demo_ended_def demo_end_effects_def alice_def demo_twitch_def Let_def)

section \<open>The order of the shutdown steps\<close>

text \<open>
  Claim C1, as amended. The spec orders the steps flag, actuator, pool, report. The handler
  releases the browser first: on every invocation the steps it performs are an initial
  part of the sequence browser (when there is one), flag, pool, report, and the whole
  sequence when the invocation reaches \<^verbatim>\<open>sys.exit(0)\<close>.
\<close>

theorem end_order:
  assumes "miner_end C now m = (m', tr, r)"
  shows "prefix (steps tr) (shutdown_order m) \<and> (r = SystemExit 0 \<longrightarrow> steps tr = shutdown_order m)"
  using assms
  by (auto simp: miner_end_def Let_def shutdown_order_def split: option.splits sum.splits prod.splits outcome.splits dest!: print_report_facts(1))

theorem end_order_witness:
  "miner_end demo_collab 160 demo_started = (demo_ended, demo_end_effects, SystemExit 0)
     \<and> steps demo_end_effects = shutdown_order demo_started
     \<and> shutdown_order demo_started = [BrowserQuit, SetRunning False, PoolEnd, LogEndSession ''session'']"
  using end_order[OF demo_end] demo_end
  by (simp add: shutdown_order_def demo_started_def)

theorem end_order_counterexample:
  "\<not> prefix (steps (fst (snd (miner_end demo_collab 160 demo_started))))
       (spec_shutdown_order (session_id demo_started))"
  by (simp add: demo_end demo_end_effects_def spec_shutdown_order_def)

lemma count_list_steps: "is_step x \<Longrightarrow> count_list t x = count_list (steps t) x"
  by (induction t) (auto simp: steps_def)

lemma count_report:
  assumes "print_report C now m = (t, r)"
  shows "count_list t (LogEndSession (session_id m)) = 1" "count_list t BrowserQuit = 0"
    "count_list t PoolEnd = 0"
  using print_report_facts(1)[OF assms]
  by (simp_all add: count_list_steps)

lemma miner_end_nonempty: "miner_end C now m = (m', tr, r) \<Longrightarrow> tr \<noteq> []"
  by (auto simp: miner_end_def Let_def split: option.splits sum.splits prod.splits outcome.splits)

lemma miner_end_keeps_flags:
  "miner_end C now m = (m', tr, r) \<Longrightarrow> \<not> running m \<Longrightarrow> \<not> tw_running (twitch m) \<Longrightarrow>
     \<not> running m' \<and> \<not> tw_running (twitch m')"
  by (auto simp: miner_end_def Let_def split: option.splits sum.splits prod.splits outcome.splits)

lemma miner_end_exit_counts:
  assumes "miner_end C now m = (m', tr, SystemExit k)"
  shows "count_list tr (LogEndSession (session_id m)) = 1 \<and> count_list tr PoolEnd = 1
     \<and> count_list tr BrowserQuit = (if twitch_browser m = None then 0 else 1)
     \<and> session_id m' = session_id m \<and> (twitch_browser m' = None \<longleftrightarrow> twitch_browser m = None)
     \<and> \<not> running m' \<and> \<not> tw_running (twitch m')"
proof -
  from miner_end_exitD[OF assms] obtain p' t where
    pr: "print_report C now m = (t, Returned)" and
    br: "case twitch_browser m of None \<Rightarrow> twitch_browser m' = None
           | Some b \<Rightarrow> \<exists>b'. browser_quit C b = Inr b' \<and> twitch_browser m' = Some b'" and
    tr: "tr = (case twitch_browser m of None \<Rightarrow> [] | Some b \<Rightarrow> [BrowserQuit])
                @ [SetRunning False, PoolEnd] @ t @ [Sleep]" and
    m': "m' = m\<lparr>twitch_browser := twitch_browser m', running := False,
                 twitch := (twitch m)\<lparr>tw_running := False\<rparr>, ws_pool := Some p'\<rparr>"
    by blast
  have flags: "session_id m' = session_id m \<and> \<not> running m' \<and> \<not> tw_running (twitch m')"
    by (subst m', simp)+
  from br have nb: "twitch_browser m' = None \<longleftrightarrow> twitch_browser m = None"
    by (auto split: option.splits)
  from tr count_report[OF pr] have
    "count_list tr (LogEndSession (session_id m)) = 1 \<and> count_list tr PoolEnd = 1
      \<and> count_list tr BrowserQuit = (if twitch_browser m = None then 0 else 1)"
    by (auto split: option.splits)
  with flags nb show ?thesis by simp
qed

section \<open>A second shutdown\<close>

text \<open>
  Claim C2, as amended. The handler has no guard against a second invocation. On the miner
  that a completed first invocation left, a second one starts over: its effects are never
  empty, and when it gets to its end too, the report has been printed twice, the pool
  ended twice and the browser, when there is one, quit twice. What stays is the state of
  the two flags: \<^verbatim>\<open>running\<close> and \<^verbatim>\<open>twitch.running\<close> are false after the first
  invocation and after the second.
\<close>

theorem end_repeats:
  assumes "miner_end C now m = (m1, t1, SystemExit 0)"
    and "miner_end C now' m1 = (m2, t2, r2)"
  shows "t2 \<noteq> [] \<and> \<not> running m1 \<and> \<not> running m2
     \<and> \<not> tw_running (twitch m1) \<and> \<not> tw_running (twitch m2)
     \<and> (r2 = SystemExit 0 \<longrightarrow>
          count_list (t1 @ t2) (LogEndSession (session_id m)) = 2
        \<and> count_list (t1 @ t2) PoolEnd = 2
        \<and> count_list (t1 @ t2) BrowserQuit = (if twitch_browser m = None then 0 else 2))"
proof -
  note c1 = miner_end_exit_counts[OF assms(1)]
  from miner_end_keeps_flags[OF assms(2)] c1
  have f2: "\<not> running m2 \<and> \<not> tw_running (twitch m2)" by simp
  have "r2 = SystemExit 0 \<longrightarrow>
          count_list (t1 @ t2) (LogEndSession (session_id m)) = 2
        \<and> count_list (t1 @ t2) PoolEnd = 2
        \<and> count_list (t1 @ t2) BrowserQuit = (if twitch_browser m = None then 0 else 2)"
  proof
    assume "r2 = SystemExit 0"
    with assms(2) have "miner_end C now' m1 = (m2, t2, SystemExit 0)" by simp
    from miner_end_exit_counts[OF this] c1 show
      "count_list (t1 @ t2) (LogEndSession (session_id m)) = 2
        \<and> count_list (t1 @ t2) PoolEnd = 2
        \<and> count_list (t1 @ t2) BrowserQuit = (if twitch_browser m = None then 0 else 2)"
      by simp
  qed
  with miner_end_nonempty[OF assms(2)] c1 f2 show ?thesis by simp
qed

lemma demo_session_id: "session_id demo_started = ''session''"
  by (simp add: demo_started_def)

lemma demo_end_again:
  "miner_end demo_collab 161 demo_ended =
     (demo_ended\<lparr>twitch_browser := Some 2\<rparr>,
      [BrowserQuit, SetRunning False, PoolEnd, Print [CHR 0x0A], LogEndSession ''session'',
       LogDuration 61, Print [], LogBetSettings, Print [], LogGained alice 0, Sleep],
      SystemExit 0)"
  by (simp add: miner_end_def print_report_def report_predictions_def demo_collab_def
        demo_started_def demo_ended_def alice_def demo_twitch_def Let_def)

theorem end_repeats_witness:
  "miner_end demo_collab 160 demo_started = (demo_ended, demo_end_effects, SystemExit 0)
   \<and> snd (snd (miner_end demo_collab 161 demo_ended)) = SystemExit 0
   \<and> count_list (demo_end_effects @ fst (snd (miner_end demo_collab 161 demo_ended)))
        (LogEndSession ''session'') = 2
   \<and> count_list (demo_end_effects @ fst (snd (miner_end demo_collab 161 demo_ended))) BrowserQuit = 2"
proof -
  have "twitch_browser demo_started \<noteq> None" by (simp add: demo_started_def)
  with end_repeats[OF demo_end demo_end_again] demo_end demo_end_again
  show ?thesis by (simp add: demo_session_id)
qed

theorem end_repeats_counterexample:
  "\<not> spec_shutdown_once (session_id demo_started)
       (fst (snd (end_twice demo_collab 160 161 demo_started)))"
  by (simp add: end_twice_def demo_end demo_end_again spec_shutdown_once_def demo_end_effects_def
        demo_session_id)

section \<open>When the shutdown gets to its end\<close>

lemma all_le_Suc_shift: "(\<forall>j \<le> Suc n. P j) \<longleftrightarrow> P 0 \<and> (\<forall>j \<le> n. P (Suc j))"
proof
  assume a: "\<forall>j \<le> Suc n. P j"
  then show "P 0 \<and> (\<forall>j \<le> n. P (Suc j))" by auto
next
  assume a: "P 0 \<and> (\<forall>j \<le> n. P (Suc j))"
  show "\<forall>j \<le> Suc n. P j"
  proof (intro allI impI)
    fix j assume "j \<le> Suc n"
    with a show "P j" by (cases j) auto
  qed
qed

lemma report_recaps_returned:
  "snd (report_recaps C k kvs) = Returned \<longleftrightarrow>
     (\<forall>j \<le> length kvs. \<not> events_resized C (k + j))
     \<and> (\<forall>kv \<in> set kvs. \<not> isl (print_recap C (snd kv)))"
proof (induction kvs arbitrary: k)
  case Nil
  then show ?case by simp
next
  case (Cons kv kvs)
  show ?case
  proof (cases "events_resized C k")
    case True
    then have "\<not> (\<forall>j \<le> length (kv # kvs). \<not> events_resized C (k + j))"
      by (auto intro: exI[of _ 0])
    with True show ?thesis by simp
  next
    case False
    show ?thesis
    proof (cases "print_recap C (snd kv)")
      case (Inl e)
      with False show ?thesis by simp
    next
      case (Inr str)
      have "(\<forall>j \<le> length (kv # kvs). \<not> events_resized C (k + j)) \<longleftrightarrow>
              (\<forall>j \<le> length kvs. \<not> events_resized C (Suc k + j))"
        using False by (simp add: all_le_Suc_shift)
      with False Inr Cons.IH[of "Suc k"] show ?thesis
        by (simp add: case_prod_unfold)
    qed
  qed
qed

lemma report_streamers_returned:
  "snd (report_streamers C ss os is) = Returned \<longleftrightarrow>
     (\<forall>i \<in> set is. \<not> isl (streamer_str C (ss ! i)) \<and> i < length os
        \<and> (history (ss ! i) \<noteq> [] \<longrightarrow> \<not> isl (print_history C (ss ! i))))"
  by (induction "is") (auto split: sum.splits prod.splits)

lemma report_predictions_returned:
  "snd (report_predictions C m) = Returned \<longleftrightarrow>
     (make_predictions m \<longrightarrow>
        \<not> isl (bet_settings_str C (bet_settings m))
      \<and> (\<forall>k \<le> length (events_predictions m). \<not> events_resized C k)
      \<and> (\<forall>kv \<in> set (events_predictions m). \<not> isl (print_recap C (snd kv))))"
  using report_recaps_returned[of C 0 "events_predictions m"]
  by (auto simp: report_predictions_def split: sum.splits prod.splits)

lemma print_report_returned: "snd (print_report C now m) = Returned \<longleftrightarrow> report_ok C m"
proof -
  have idx: "(\<forall>i \<in> set [0..<length (streamers m)].
               \<not> isl (streamer_str C (streamers m ! i)) \<and> i < length (original_streamers m)
                \<and> (history (streamers m ! i) \<noteq> [] \<longrightarrow> \<not> isl (print_history C (streamers m ! i))))
        \<longleftrightarrow> length (streamers m) \<le> length (original_streamers m)
            \<and> (\<forall>s \<in> set (streamers m).
                  \<not> isl (streamer_str C s) \<and> (history s \<noteq> [] \<longrightarrow> \<not> isl (print_history C s)))"
    (is "?L \<longleftrightarrow> ?R")
  proof
    assume l: ?L
    then have "\<forall>i < length (streamers m). i < length (original_streamers m)" by simp
    then have "length (streamers m) \<le> length (original_streamers m)"
      by (meson not_less order_refl less_le_trans less_irrefl leI)
    moreover from l have "\<forall>s \<in> set (streamers m).
                  \<not> isl (streamer_str C s) \<and> (history s \<noteq> [] \<longrightarrow> \<not> isl (print_history C s))"
      by (auto simp: in_set_conv_nth)
    ultimately show ?R by simp
  next
    assume ?R
    then show ?L by auto
  qed
  show ?thesis
  proof (cases "start_datetime m")
    case None
    then show ?thesis by (simp add: print_report_def report_ok_def Let_def)
  next
    case (Some t0)
    obtain recap r1 where rp: "report_predictions C m = (recap, r1)"
      by (cases "report_predictions C m")
    obtain t r where rs: "report_streamers C (streamers m) (original_streamers m)
                            [0..<length (streamers m)] = (t, r)"
      by (cases "report_streamers C (streamers m) (original_streamers m) [0..<length (streamers m)]")
    from report_predictions_returned[of C m] rp have p: "r1 = Returned \<longleftrightarrow>
       (make_predictions m \<longrightarrow>
          \<not> isl (bet_settings_str C (bet_settings m))
        \<and> (\<forall>k \<le> length (events_predictions m). \<not> events_resized C k)
        \<and> (\<forall>kv \<in> set (events_predictions m). \<not> isl (print_recap C (snd kv))))"
      by simp
    from report_streamers_returned[of C "streamers m" "original_streamers m"
        "[0..<length (streamers m)]"] rs idx
    have s: "r = Returned \<longleftrightarrow> length (streamers m) \<le> length (original_streamers m)
            \<and> (\<forall>s \<in> set (streamers m).
                  \<not> isl (streamer_str C s) \<and> (history s \<noteq> [] \<longrightarrow> \<not> isl (print_history C s)))"
      by simp
    from Some rp rs p s show ?thesis
      by (auto simp: print_report_def report_ok_def Let_def)
  qed
qed

lemma gained_append [simp]: "gained (xs @ ys) = gained xs @ gained ys"
  by (induction xs rule: gained.induct) auto

lemma report_recaps_quiet:
  "report_recaps C k kvs = (t, r) \<Longrightarrow> gained t = [] \<and> LogError msg \<notin> set t"
  by (induction kvs arbitrary: k t r) (auto split: if_splits sum.splits prod.splits)

lemma report_predictions_quiet:
  "report_predictions C m = (t, r) \<Longrightarrow> gained t = [] \<and> LogError msg \<notin> set t"
  by (auto simp: report_predictions_def split: if_splits sum.splits prod.splits
           dest: report_recaps_quiet)


lemma gained_report_streamers:
  "prefix (gained (fst (report_streamers C ss os is)))
     (map (\<lambda>i. (ss ! i, channel_points (ss ! i) - channel_points (os ! i))) is)"
  "snd (report_streamers C ss os is) = Returned \<Longrightarrow>
     gained (fst (report_streamers C ss os is)) =
       map (\<lambda>i. (ss ! i, channel_points (ss ! i) - channel_points (os ! i))) is"
  by (induction "is"; auto split: sum.splits prod.splits if_splits)+


lemma gained_print_report:
  "prefix (gained (fst (print_report C now m)))
     (map (\<lambda>i. (streamers m ! i,
                channel_points (streamers m ! i) - channel_points (original_streamers m ! i)))
        [0..<length (streamers m)])"
  "snd (print_report C now m) = Returned \<Longrightarrow>
     gained (fst (print_report C now m)) =
       map (\<lambda>i. (streamers m ! i,
                  channel_points (streamers m ! i) - channel_points (original_streamers m ! i)))
         [0..<length (streamers m)]"
proof -
  let ?full = "map (\<lambda>i. (streamers m ! i,
                channel_points (streamers m ! i) - channel_points (original_streamers m ! i)))
        [0..<length (streamers m)]"
  obtain recap r1 where rp: "report_predictions C m = (recap, r1)"
    by (cases "report_predictions C m")
  obtain t r where rs: "report_streamers C (streamers m) (original_streamers m)
                            [0..<length (streamers m)] = (t, r)"
    by (cases "report_streamers C (streamers m) (original_streamers m) [0..<length (streamers m)]")
  from report_predictions_quiet[OF rp] have g0: "gained recap = []" by simp
  from gained_report_streamers(1)[of C "streamers m" "original_streamers m"
      "[0..<length (streamers m)]"] rs
  have g1: "prefix (gained t) ?full" by simp
  from gained_report_streamers(2)[of C "streamers m" "original_streamers m"
      "[0..<length (streamers m)]"] rs
  have g2: "r = Returned \<Longrightarrow> gained t = ?full" by simp
  from rp rs g0 g1 show "prefix (gained (fst (print_report C now m))) ?full"
    by (simp add: print_report_def Let_def split: option.splits)
  assume "snd (print_report C now m) = Returned"
  with rp rs g0 g2 show "gained (fst (print_report C now m)) = ?full"
    by (simp add: print_report_def Let_def split: option.splits if_splits)
qed

lemma end_outcome:
  assumes "miner_end C now m = (m', tr, r)"
  shows "r = SystemExit 0 \<or> (\<exists>e. r = Raised e)"
  using assms
  by (auto simp: miner_end_def Let_def split: option.splits sum.splits prod.splits outcome.splits
           dest: print_report_facts(2))





lemma end_pool_raises:
  assumes "ws_pool m = Some p" and "pool_end C p = Inl e"
    and "\<forall>b. twitch_browser m = Some b \<longrightarrow> \<not> isl (browser_quit C b)"
    and "miner_end C now m = (m', tr, r)"
  shows "r = Raised e \<and> LogEndSession (session_id m) \<notin> set tr"
  using assms
  by (auto simp: miner_end_def Let_def split: option.splits sum.splits)

lemma end_without_pool:
  "miner_end C now (init tw sid logs mp fr bs bt) =
     ((init tw sid logs mp fr bs bt)\<lparr>twitch := tw\<lparr>tw_running := False\<rparr>\<rparr>,
      [SetRunning False], Raised AttributeError)"
  by (simp add: miner_end_def init_def Let_def)








section \<open>Facts about starting a session\<close>

lemma submitted_append [simp]: "submitted (xs @ ys) = submitted xs @ submitted ys"
  by (induction xs rule: submitted.induct) auto

lemma submitted_resolve: "resolve_streamers C ns ss = (ss', t, r) \<Longrightarrow> submitted t = []"
  by (induction ns arbitrary: ss ss' t r) (auto simp: Let_def split: sum.splits prod.splits if_splits)

lemma submitted_load: "load_streamers C ss = (ss', t, r) \<Longrightarrow> submitted t = []"
  by (induction ss arbitrary: ss' t r) (auto split: sum.splits prod.splits)

lemma submit_all_returned: "submit_all C p tps = (q, t, Returned) \<Longrightarrow> submitted t = tps"
  by (induction tps arbitrary: p q t) (auto split: sum.splits prod.splits)

lemma run_topics_frame [simp]:
  "run_topics (m\<lparr>ws_pool := p\<rparr>) = run_topics m"
  "run_topics (m\<lparr>twitch_browser := b\<rparr>) = run_topics m"
  "run_topics (m\<lparr>minute_watcher_thread := th\<rparr>) = run_topics m"
  by (simp_all add: run_topics_def)

lemma run_setup_returned:
  assumes "run_setup C now m names = (m1, t, Returned)"
  shows "\<exists>w ss t2 t3. login C (twitch m) = Inr w
      \<and> resolve_streamers C names (streamers m) = (ss, t2, Returned)
      \<and> load_streamers C ss = (streamers m1, t3, Returned)
      \<and> original_streamers m1 = streamers m1 \<and> start_datetime m1 = Some now \<and> running m1
      \<and> twitch m1 = w \<and> make_predictions m1 = make_predictions m
      \<and> follow_raid m1 = follow_raid m \<and> session_id m1 = session_id m
      \<and> submitted t = run_topics m1"
  using assms
  apply (simp add: run_setup_def Let_def split: sum.splits prod.splits if_splits)
  apply (auto dest!: submit_all_returned dest: submitted_resolve submitted_load)
  done

lemma demo_setup:
  "run_setup demo_collab 100 demo_miner [''alice'', ''nobody'']
     = (demo_started, demo_start_effects, Returned)"
  by (simp add: run_setup_def demo_collab_def demo_miner_def init_def demo_started_def alice_def
        demo_twitch_def run_topics_def streamer_topics_def demo_topics_def
        demo_start_effects_def Let_def)

lemma dispatch_all_frame:
  "original_streamers (dispatch_all h evs m) = original_streamers m"
  "start_datetime (dispatch_all h evs m) = start_datetime m"
  "length (streamers (dispatch_all h evs m)) = length (streamers m)"
  by (induction evs arbitrary: m; simp add: dispatch_all_def dispatch_def)+

lemma dispatch_all_identity:
  assumes "\<forall>ev s. username (h ev s) = username s \<and> channel_id (h ev s) = channel_id s"
  shows "map username (streamers (dispatch_all h evs m)) = map username (streamers m)"
    and "map channel_id (streamers (dispatch_all h evs m)) = map channel_id (streamers m)"
  using assms
  by (induction evs arbitrary: m; simp add: dispatch_all_def dispatch_def comp_def)+

section \<open>The points gained in the report\<close>

text \<open>
  Claim C4. After a start that got through, take the miner at any later moment: whatever
  happened in between, and however many events, as long as the snapshot and the start
  time are the ones of the start and the streamer list has kept its length. Every points
  line that the report prints then has, for the streamer at its index, the balance of the
  streamer now minus the balance it had when the snapshot was taken; the report prints
  such a line for every streamer when it returns, and it returns exactly when its
  formatting calls return and the dictionary of predictions keeps its size.
\<close>

theorem report_delta:
  assumes "run_setup C now m names = (m1, t, Returned)"
    and "original_streamers m2 = original_streamers m1"
    and "start_datetime m2 = start_datetime m1"
    and "length (streamers m2) = length (streamers m1)"
  shows "original_streamers m2 = streamers m1
     \<and> prefix (gained (fst (print_report C' now' m2)))
         (map (\<lambda>i. (streamers m2 ! i,
                    channel_points (streamers m2 ! i) - channel_points (streamers m1 ! i)))
           [0..<length (streamers m1)])
     \<and> (snd (print_report C' now' m2) = Returned \<longrightarrow>
          gained (fst (print_report C' now' m2)) =
            map (\<lambda>i. (streamers m2 ! i,
                       channel_points (streamers m2 ! i) - channel_points (streamers m1 ! i)))
              [0..<length (streamers m1)])
     \<and> start_datetime m2 \<noteq> None
     \<and> length (streamers m2) \<le> length (original_streamers m2)
     \<and> (snd (print_report C' now' m2) = Returned \<longleftrightarrow> report_ok C' m2)"
proof -
  from run_setup_returned[OF assms(1)] have
    snap: "original_streamers m1 = streamers m1" and st: "start_datetime m1 = Some now"
    by auto
  have os: "original_streamers m2 = streamers m1"
    by (simp add: assms(2) snap)
  have sd: "start_datetime m2 \<noteq> None"
    by (simp add: assms(3) st)
  have le: "length (streamers m2) \<le> length (original_streamers m2)"
    by (simp add: os assms(4))
  from gained_print_report(1)[of C' now' m2] os assms(4)
  have p: "prefix (gained (fst (print_report C' now' m2)))
         (map (\<lambda>i. (streamers m2 ! i,
                    channel_points (streamers m2 ! i) - channel_points (streamers m1 ! i)))
           [0..<length (streamers m1)])"
    by simp
  from gained_print_report(2)[of C' now' m2] os assms(4)
  have e: "snd (print_report C' now' m2) = Returned \<longrightarrow>
          gained (fst (print_report C' now' m2)) =
            map (\<lambda>i. (streamers m2 ! i,
                       channel_points (streamers m2 ! i) - channel_points (streamers m1 ! i)))
              [0..<length (streamers m1)]"
    by simp
  from os p e sd le print_report_returned[of C' now' m2] show ?thesis by blast
qed

text \<open>
  The scenario of the spec, with the balance changed twice: 500 at the start, 540 at the
  end, 40 gained.
\<close>

theorem report_delta_witness:
  "run_setup demo_collab 100 demo_miner [''alice'', ''nobody'']
     = (demo_started, demo_start_effects, Returned)
   \<and> print_report demo_collab 160
        (dispatch_all apply_event [BalanceChanged 123 520 ''WATCH'' 20,
           OnlineChanged 123 False, BalanceChanged 123 540 ''CLAIM'' 20] demo_started)
      = ([Print [CHR 0x0A], LogEndSession ''session'', LogDuration 60, Print [],
          LogBetSettings, Print [],
          LogGained (alice\<lparr>is_online := False, channel_points := 540,
                           history := [(''WATCH'', 20), (''CLAIM'', 20)]\<rparr>) 40,
          LogHistory (alice\<lparr>is_online := False, channel_points := 540,
                           history := [(''WATCH'', 20), (''CLAIM'', 20)]\<rparr>)], Returned)
   \<and> gained (fst (print_report demo_collab 160
        (dispatch_all apply_event [BalanceChanged 123 520 ''WATCH'' 20,
           OnlineChanged 123 False, BalanceChanged 123 540 ''CLAIM'' 20] demo_started)))
      = [(alice\<lparr>is_online := False, channel_points := 540,
                 history := [(''WATCH'', 20), (''CLAIM'', 20)]\<rparr>, 40)]"
proof -
  let ?m2 = "dispatch_all apply_event [BalanceChanged 123 520 ''WATCH'' 20,
           OnlineChanged 123 False, BalanceChanged 123 540 ''CLAIM'' 20] demo_started"
  have a: "original_streamers ?m2 = original_streamers demo_started"
    and b: "start_datetime ?m2 = start_datetime demo_started"
    and c: "length (streamers ?m2) = length (streamers demo_started)"
    by (rule dispatch_all_frame)+
  have m2: "?m2 = demo_started\<lparr>streamers := [alice\<lparr>is_online := False, channel_points := 540,
                 history := [(''WATCH'', 20), (''CLAIM'', 20)]\<rparr>]\<rparr>"
    by (simp add: dispatch_all_def dispatch_def demo_started_def alice_def)
  have pr: "print_report demo_collab 160 ?m2
      = ([Print [CHR 0x0A], LogEndSession ''session'', LogDuration 60, Print [],
          LogBetSettings, Print [],
          LogGained (alice\<lparr>is_online := False, channel_points := 540,
                           history := [(''WATCH'', 20), (''CLAIM'', 20)]\<rparr>) 40,
          LogHistory (alice\<lparr>is_online := False, channel_points := 540,
                           history := [(''WATCH'', 20), (''CLAIM'', 20)]\<rparr>)], Returned)"
    by (simp only: m2)
       (simp add: print_report_def report_predictions_def demo_collab_def demo_started_def
          alice_def Let_def)
  from report_delta[OF demo_setup a b c, of demo_collab 160] pr
  have "gained (fst (print_report demo_collab 160 ?m2)) =
          map (\<lambda>i. (streamers ?m2 ! i,
                     channel_points (streamers ?m2 ! i) - channel_points (streamers demo_started ! i)))
            [0..<length (streamers demo_started)]"
    by simp
  also have "\<dots> = [(alice\<lparr>is_online := False, channel_points := 540,
                 history := [(''WATCH'', 20), (''CLAIM'', 20)]\<rparr>, 40)]"
    by (simp only: m2) (simp add: demo_started_def alice_def)
  finally show ?thesis using demo_setup pr by simp
qed

section \<open>The topics submitted to the pool\<close>

lemma set_run_topics:
  "set (run_topics m) =
     spec_topics (tw_user_id (twitch m)) (make_predictions m) (follow_raid m) (streamers m)"
  by (auto simp: run_topics_def spec_topics_def streamer_topics_def)

text \<open>
  Claim C5. After a start that got through, the set of topics submitted is the set of the
  spec: the points topic of the account; with betting, the predictions topic of the
  account and of each streamer; with raid following, the raid topic of each streamer; and
  the playback topic of each streamer.
\<close>

theorem topics_submitted:
  assumes "run_setup C now m names = (m1, t, Returned)"
  shows "set (submitted t) =
     spec_topics (tw_user_id (twitch m1)) (make_predictions m) (follow_raid m) (streamers m1)"
proof -
  from run_setup_returned[OF assms] have
    "submitted t = run_topics m1" "make_predictions m1 = make_predictions m"
    "follow_raid m1 = follow_raid m"
    by auto
  with set_run_topics[of m1] show ?thesis by simp
qed

lemma submitted_map_Submit [simp]: "submitted (map Submit tps) = tps"
  by (induction tps) auto

lemma demo_submitted: "submitted demo_start_effects = demo_topics"
  by (simp add: demo_start_effects_def)

theorem topics_submitted_witness:
  "run_setup demo_collab 100 demo_miner [''alice'', ''nobody'']
     = (demo_started, demo_start_effects, Returned)
   \<and> set demo_topics = spec_topics ''42'' True True [alice]"
proof -
  have "tw_user_id (twitch demo_started) = ''42''" "make_predictions demo_miner"
    "follow_raid demo_miner" "streamers demo_started = [alice]"
    by (simp_all add: demo_started_def demo_twitch_def demo_miner_def init_def)
  with topics_submitted[OF demo_setup] demo_submitted demo_setup show ?thesis by simp
qed

section \<open>Names that do not exist\<close>

text \<open>
  Claim C6. When each configured name either resolves or raises
  \<^verbatim>\<open>StreamerDoesNotExistException\<close>, the loop over the names comes to its end: every name
  is asked for, each name that does not exist is logged, and the list of streamers grows
  by exactly the streamers of the names that resolve, in the configured order. A miner
  that was just constructed starts with the empty list.
\<close>

theorem unknown_names_skipped:
  assumes "\<forall>n\<in>set names. \<forall>e. get_channel_id C n = Inl e \<longrightarrow> e = StreamerDoesNotExistException"
  shows "\<exists>t. resolve_streamers C names ss =
           (ss @ map (\<lambda>(n, cid). Streamer C n cid) (resolvable C names), t, Returned)
         \<and> queried t = names
         \<and> not_found t = filter (\<lambda>n. get_channel_id C n = Inl StreamerDoesNotExistException) names"
  using assms
proof (induction names arbitrary: ss)
  case Nil
  then show ?case by simp
next
  case (Cons n ns)
  then have rest: "\<forall>n\<in>set ns. \<forall>e. get_channel_id C n = Inl e \<longrightarrow> e = StreamerDoesNotExistException"
    by simp
  show ?case
  proof (cases "get_channel_id C n")
    case (Inl e)
    with Cons.prems have e: "e = StreamerDoesNotExistException" by simp
    from Cons.IH[OF rest, of ss] obtain t where
      "resolve_streamers C ns ss =
         (ss @ map (\<lambda>(n, cid). Streamer C n cid) (resolvable C ns), t, Returned)"
      "queried t = ns"
      "not_found t = filter (\<lambda>n. get_channel_id C n = Inl StreamerDoesNotExistException) ns"
      by blast
    with Inl e show ?thesis by (simp add: Let_def)
  next
    case (Inr cid)
    from Cons.IH[OF rest, of "ss @ [Streamer C n cid]"] obtain t where
      "resolve_streamers C ns (ss @ [Streamer C n cid]) =
         ((ss @ [Streamer C n cid]) @ map (\<lambda>(n, cid). Streamer C n cid) (resolvable C ns), t, Returned)"
      "queried t = ns"
      "not_found t = filter (\<lambda>n. get_channel_id C n = Inl StreamerDoesNotExistException) ns"
      by blast
    with Inr show ?thesis by (simp add: Let_def)
  qed
qed

lemma demo_names_ok:
  "\<forall>n\<in>set [''nobody'', ''alice'', ''ghost'']. \<forall>e. get_channel_id demo_collab n = Inl e \<longrightarrow> e = StreamerDoesNotExistException"
  by (simp add: demo_collab_def)

theorem unknown_names_skipped_witness:
  "fst (resolve_streamers demo_collab [''nobody'', ''alice'', ''ghost''] [])
      = [Streamer demo_collab ''alice'' 123]
   \<and> snd (snd (resolve_streamers demo_collab [''nobody'', ''alice'', ''ghost''] [])) = Returned
   \<and> not_found (fst (snd (resolve_streamers demo_collab [''nobody'', ''alice'', ''ghost''] [])))
      = [''nobody'', ''ghost'']"
proof -
  from unknown_names_skipped[OF demo_names_ok, of "[]"] obtain t where
    r: "resolve_streamers demo_collab [''nobody'', ''alice'', ''ghost''] [] =
         ([] @ map (\<lambda>(n, cid). Streamer demo_collab n cid)
                 (resolvable demo_collab [''nobody'', ''alice'', ''ghost'']), t, Returned)"
    and nf: "not_found t = filter (\<lambda>n. get_channel_id demo_collab n = Inl StreamerDoesNotExistException)
                 [''nobody'', ''alice'', ''ghost'']"
    by blast
  have "resolvable demo_collab [''nobody'', ''alice'', ''ghost''] = [(''alice'', 123)]"
    by (simp add: demo_collab_def)
  moreover have "filter (\<lambda>n. get_channel_id demo_collab n = Inl StreamerDoesNotExistException)
                 [''nobody'', ''alice'', ''ghost''] = [''nobody'', ''ghost'']"
    by (simp add: demo_collab_def)
  ultimately show ?thesis using r nf by simp
qed

section \<open>The names as configured\<close>

text \<open>
  Claim C9. The loop goes through the configured names up to the first one, if any,
  whose resolution raises something else than \<^verbatim>\<open>StreamerDoesNotExistException\<close>. The
  names it asks of \<^verbatim>\<open>get_channel_id\<close> are those configured names, letter for letter,
  and each \<^verbatim>\<open>Streamer\<close> is constructed from the configured name and the channel id
  found for it. The lowered and stripped string reaches neither call, so two names with
  the same lowered and stripped form are asked for and constructed apart.
\<close>

theorem names_as_configured:
  "\<exists>t. resolve_streamers C names ss =
          (ss @ map (\<lambda>(n, cid). Streamer C n cid)
                  (resolvable C (takeWhile (\<lambda>n. \<not> stops_at C n) names)),
           t,
           (case dropWhile (\<lambda>n. \<not> stops_at C n) names of
              [] \<Rightarrow> Returned
            | n # ns \<Rightarrow> (case get_channel_id C n of Inl e \<Rightarrow> Raised e | Inr cid \<Rightarrow> Returned)))
      \<and> queried t = takeWhile (\<lambda>n. \<not> stops_at C n) names
                      @ take 1 (dropWhile (\<lambda>n. \<not> stops_at C n) names)
      \<and> constructed t = resolvable C (takeWhile (\<lambda>n. \<not> stops_at C n) names)"
proof (induction names arbitrary: ss)
  case Nil
  then show ?case by simp
next
  case (Cons n ns)
  show ?case
  proof (cases "get_channel_id C n")
    case (Inr cid)
    then have go: "\<not> stops_at C n" by (simp add: stops_at_def)
    from Cons.IH[of "ss @ [Streamer C n cid]"] obtain t where
      "resolve_streamers C ns (ss @ [Streamer C n cid]) =
          ((ss @ [Streamer C n cid]) @ map (\<lambda>(n, cid). Streamer C n cid)
                  (resolvable C (takeWhile (\<lambda>n. \<not> stops_at C n) ns)),
           t,
           (case dropWhile (\<lambda>n. \<not> stops_at C n) ns of
              [] \<Rightarrow> Returned
            | n # ns \<Rightarrow> (case get_channel_id C n of Inl e \<Rightarrow> Raised e | Inr cid \<Rightarrow> Returned)))"
      "queried t = takeWhile (\<lambda>n. \<not> stops_at C n) ns
                      @ take 1 (dropWhile (\<lambda>n. \<not> stops_at C n) ns)"
      "constructed t = resolvable C (takeWhile (\<lambda>n. \<not> stops_at C n) ns)"
      by blast
    with Inr go show ?thesis by (simp add: Let_def)
  next
    case (Inl e)
    show ?thesis
    proof (cases "e = StreamerDoesNotExistException")
      case True
      with Inl have go: "\<not> stops_at C n" by (simp add: stops_at_def)
      from Cons.IH[of ss] obtain t where
        "resolve_streamers C ns ss =
          (ss @ map (\<lambda>(n, cid). Streamer C n cid)
                  (resolvable C (takeWhile (\<lambda>n. \<not> stops_at C n) ns)),
           t,
           (case dropWhile (\<lambda>n. \<not> stops_at C n) ns of
              [] \<Rightarrow> Returned
            | n # ns \<Rightarrow> (case get_channel_id C n of Inl e \<Rightarrow> Raised e | Inr cid \<Rightarrow> Returned)))"
        "queried t = takeWhile (\<lambda>n. \<not> stops_at C n) ns
                      @ take 1 (dropWhile (\<lambda>n. \<not> stops_at C n) ns)"
        "constructed t = resolvable C (takeWhile (\<lambda>n. \<not> stops_at C n) ns)"
        by blast
      with Inl True go show ?thesis by (simp add: Let_def)
    next
      case False
      with Inl have "stops_at C n" by (simp add: stops_at_def)
      with Inl False show ?thesis by (simp add: Let_def)
    qed
  qed
qed

lemma normalised_same: "strip (lower ''Alice'') = ''alice''" "strip (lower '' alice '') = ''alice''"
  by code_simp+

lemma lenient_never_stops: "\<not> stops_at lenient_collab n"
  by (simp add: stops_at_def lenient_collab_def)

text \<open>
  Two names with the same lowered and stripped form: each is asked for and constructed
  as it is configured.
\<close>

theorem names_as_configured_witness:
  "strip (lower ''Alice'') = strip (lower '' alice '')
   \<and> fst (resolve_streamers lenient_collab [''Alice'', '' alice ''] [])
       = [Streamer lenient_collab ''Alice'' 5, Streamer lenient_collab '' alice '' 7]
   \<and> queried (fst (snd (resolve_streamers lenient_collab [''Alice'', '' alice ''] [])))
       = [''Alice'', '' alice '']
   \<and> constructed (fst (snd (resolve_streamers lenient_collab [''Alice'', '' alice ''] [])))
       = [(''Alice'', 5), ('' alice '', 7)]
   \<and> snd (snd (resolve_streamers lenient_collab [''Alice'', '' alice ''] [])) = Returned"
proof -
  have tw: "takeWhile (\<lambda>n. \<not> stops_at lenient_collab n) xs = xs"
    and dw: "dropWhile (\<lambda>n. \<not> stops_at lenient_collab n) xs = []" for xs
    by (simp_all add: lenient_never_stops)
  have r: "resolvable lenient_collab [''Alice'', '' alice ''] = [(''Alice'', 5), ('' alice '', 7)]"
    by (simp add: lenient_collab_def)
  have "\<exists>t. resolve_streamers lenient_collab [''Alice'', '' alice ''] [] =
       ([Streamer lenient_collab ''Alice'' 5, Streamer lenient_collab '' alice '' 7], t, Returned)
     \<and> queried t = [''Alice'', '' alice '']
     \<and> constructed t = [(''Alice'', 5), ('' alice '', 7)]"
    using names_as_configured[of lenient_collab "[''Alice'', '' alice '']" "[]"]
    by (simp only: tw dw r) (simp del: resolve_streamers.simps)
  with normalised_same show ?thesis by (auto simp del: resolve_streamers.simps)
qed

section \<open>Waiting for the flag\<close>

lemma wait_loop_SomeD:
  assumes "wait_loop env k acc m = Some y"
  shows "(snd (snd y) = Returned \<longrightarrow> \<not> running (fst y))
     \<and> (\<exists>n. \<not> (running (poll env k m n) \<and> snd (snd (env (k + n) (poll env k m n))) = Returned))"
  using assms
proof (induction rule: wait_loop.raw_induct[rotated 1, consumes 1, case_names step])
  case (step wl env k acc m y)
  show ?case
  proof (cases "running m")
    case False
    with step(2) have "y = (m, acc, Returned)" by simp
    moreover from False
    have "\<exists>n. \<not> (running (poll env k m n) \<and> snd (snd (env (k + n) (poll env k m n))) = Returned)"
      by (intro exI[of _ 0]) simp
    ultimately show ?thesis using False by simp
  next
    case True
    obtain m' te r where e: "env k m = (m', te, r)" by (cases "env k m")
    show ?thesis
    proof (cases "r = Returned")
      case False
      with step(2) True e have "y = (m', acc @ Sleep # te, r)" by simp
      moreover from e False
      have "\<exists>n. \<not> (running (poll env k m n) \<and> snd (snd (env (k + n) (poll env k m n))) = Returned)"
        by (intro exI[of _ 0]) simp
      ultimately show ?thesis using False by simp
    next
      case r: True
      with step(2) True e have "wl env (Suc k) (acc @ Sleep # te) m' = Some y" by simp
      from step(1)[OF this] obtain n where
        fl: "snd (snd y) = Returned \<longrightarrow> \<not> running (fst y)" and
        n: "\<not> (running (poll env (Suc k) m' n)
               \<and> snd (snd (env (Suc k + n) (poll env (Suc k) m' n))) = Returned)"
        by blast
      from n e have "\<not> (running (poll env k m (Suc n))
               \<and> snd (snd (env (k + Suc n) (poll env k m (Suc n)))) = Returned)"
        by simp
      with fl show ?thesis by blast
    qed
  qed
qed

lemma wait_loop_step:
  assumes "running m" and "snd (snd (env k m)) = Returned"
  shows "wait_loop env k acc m =
           wait_loop env (Suc k) (acc @ Sleep # fst (snd (env k m))) (fst (env k m))"
  using assms by (subst wait_loop.simps) (simp add: case_prod_unfold)

lemma later_sleeps:
  assumes "\<forall>j<Suc n. running (poll env k m j) \<and> snd (snd (env (k + j) (poll env k m j))) = Returned"
  shows "running m" and "snd (snd (env k m)) = Returned"
    and "\<forall>j<n. running (poll env (Suc k) (fst (env k m)) j)
            \<and> snd (snd (env (Suc k + j) (poll env (Suc k) (fst (env k m)) j))) = Returned"
proof -
  from assms have "running (poll env k m 0) \<and> snd (snd (env (k + 0) (poll env k m 0))) = Returned"
    by blast
  then show "running m" "snd (snd (env k m)) = Returned" by simp_all
  show "\<forall>j<n. running (poll env (Suc k) (fst (env k m)) j)
            \<and> snd (snd (env (Suc k + j) (poll env (Suc k) (fst (env k m)) j))) = Returned"
  proof (intro allI impI)
    fix j assume "j < n"
    then have "Suc j < Suc n" by simp
    with assms have "running (poll env k m (Suc j))
        \<and> snd (snd (env (k + Suc j) (poll env k m (Suc j)))) = Returned"
      by blast
    then show "running (poll env (Suc k) (fst (env k m)) j)
            \<and> snd (snd (env (Suc k + j) (poll env (Suc k) (fst (env k m)) j))) = Returned"
      by simp
  qed
qed

lemma wait_loop_returns:
  assumes "\<forall>j<n. running (poll env k m j) \<and> snd (snd (env (k + j) (poll env k m j))) = Returned"
    and "\<not> running (poll env k m n)"
  shows "wait_loop env k acc m = Some (poll env k m n, acc @ slept env k m n, Returned)"
  using assms
proof (induction n arbitrary: k acc m)
  case 0
  then show ?case by (simp add: wait_loop.simps)
next
  case (Suc n)
  note first = later_sleeps[OF Suc.prems(1)]
  from Suc.prems(2) have last: "\<not> running (poll env (Suc k) (fst (env k m)) n)" by simp
  from Suc.IH[OF first(3) last, of "acc @ Sleep # fst (snd (env k m))"]
  show ?case by (simp add: wait_loop_step[where env=env and k=k and m=m, OF first(1,2)])
qed

lemma wait_loop_raised:
  assumes "\<forall>j<n. running (poll env k m j) \<and> snd (snd (env (k + j) (poll env k m j))) = Returned"
    and "running (poll env k m n)"
    and "snd (snd (env (k + n) (poll env k m n))) \<noteq> Returned"
  shows "wait_loop env k acc m =
           Some (fst (env (k + n) (poll env k m n)), acc @ slept env k m (Suc n),
                 snd (snd (env (k + n) (poll env k m n))))"
  using assms
proof (induction n arbitrary: k acc m)
  case 0
  then show ?case
    by (subst wait_loop.simps) (simp add: case_prod_unfold)
next
  case (Suc n)
  note first = later_sleeps[OF Suc.prems(1)]
  from Suc.prems(2) have run: "running (poll env (Suc k) (fst (env k m)) n)" by simp
  from Suc.prems(3) have
    rs: "snd (snd (env (Suc k + n) (poll env (Suc k) (fst (env k m)) n))) \<noteq> Returned"
    by simp
  from Suc.IH[OF first(3) run rs, of "acc @ Sleep # fst (snd (env k m))"]
  show ?case by (simp add: wait_loop_step[where env=env and k=k and m=m, OF first(1,2)])
qed

lemma wait_loop_blocks:
  assumes "\<forall>j. running (poll env k m j) \<and> snd (snd (env (k + j) (poll env k m j))) = Returned"
  shows "wait_loop env k acc m = None"
proof (cases "wait_loop env k acc m")
  case None
  then show ?thesis .
next
  case (Some y)
  from wait_loop_SomeD[OF Some] assms show ?thesis by blast
qed

lemma end_flags_cleared:
  assumes "miner_end C now m = (m', te, r)" and "SetRunning False \<in> set te"
  shows "\<not> running m' \<and> \<not> tw_running (twitch m')"
  using assms
  by (auto simp: miner_end_def Let_def split: option.splits sum.splits prod.splits outcome.splits)

lemma poll_signal: "k + j \<le> n \<Longrightarrow> poll (signal_during C now n) k m j = m"
  by (induction j arbitrary: k) (simp_all add: signal_during_def)

lemma slept_signal: "k + j \<le> n \<Longrightarrow> slept (signal_during C now n) k m j = replicate j Sleep"
  by (induction j arbitrary: k) (simp_all add: signal_during_def)

lemma slept_Suc:
  "slept env k m (Suc n) =
     slept env k m n @ Sleep # fst (snd (env (k + n) (poll env k m n)))"
  by (induction n arbitrary: k m) simp_all

text \<open>
  Claim C7. After a start that got through, \<^verbatim>\<open>run\<close> waits in its loop. As long as every
  test finds the flag set and nothing raises during a sleep, \<^verbatim>\<open>run\<close> has no result. When
  the \<open>n\<close>-th test is the first to find the flag cleared, \<^verbatim>\<open>run\<close> returns at that test,
  after \<open>n\<close> sleeps; whenever \<^verbatim>\<open>run\<close> returns, the flag is cleared. When something raises
  during sleep \<open>n\<close>, \<^verbatim>\<open>run\<close> ends there with that outcome. That is the way of the
  shutdown handler: a signal during sleep \<open>n\<close> runs \<open>miner_end\<close> in the thread of the loop,
  and \<^verbatim>\<open>run\<close> ends in the outcome of the handler, with the effects of the handler after
  the sleeps and the miner the handler left, whose flag is cleared once the handler has
  got to its assignment.
\<close>

theorem run_blocks_until_cleared:
  assumes "\<not> running m" and "run_setup C now m names = (m1, t, Returned)"
  shows "((\<forall>j. running (poll env 0 m1 j) \<and> snd (snd (env j (poll env 0 m1 j))) = Returned)
            \<longrightarrow> run C now env m names = None)
     \<and> (\<forall>n. (\<forall>j<n. running (poll env 0 m1 j) \<and> snd (snd (env j (poll env 0 m1 j))) = Returned)
              \<and> \<not> running (poll env 0 m1 n)
            \<longrightarrow> run C now env m names
                  = Some (poll env 0 m1 n, t @ slept env 0 m1 n, Returned))
     \<and> (\<forall>n. (\<forall>j<n. running (poll env 0 m1 j) \<and> snd (snd (env j (poll env 0 m1 j))) = Returned)
              \<and> running (poll env 0 m1 n)
              \<and> snd (snd (env n (poll env 0 m1 n))) \<noteq> Returned
            \<longrightarrow> run C now env m names
                  = Some (fst (env n (poll env 0 m1 n)), t @ slept env 0 m1 (Suc n),
                          snd (snd (env n (poll env 0 m1 n)))))
     \<and> (\<forall>m' tr. run C now env m names = Some (m', tr, Returned) \<longrightarrow> \<not> running m')
     \<and> (\<forall>n C' now'. \<exists>m' te r.
            miner_end C' now' m1 = (m', te, r) \<and> r \<noteq> Returned
          \<and> run C now (signal_during C' now' n) m names
              = Some (m', t @ replicate (Suc n) Sleep @ te, r)
          \<and> (SetRunning False \<in> set te \<longrightarrow> \<not> running m'))"
proof -
  have run_eq: "run C now env' m names = wait_loop env' 0 t m1" for env'
    using assms by (simp add: run_def)
  have blocks: "(\<forall>j. running (poll env 0 m1 j) \<and> snd (snd (env j (poll env 0 m1 j))) = Returned)
            \<longrightarrow> run C now env m names = None"
  proof
    assume "\<forall>j. running (poll env 0 m1 j) \<and> snd (snd (env j (poll env 0 m1 j))) = Returned"
    then have "wait_loop env 0 t m1 = None" by (intro wait_loop_blocks) simp
    then show "run C now env m names = None" by (simp add: run_eq)
  qed
  have returns: "\<forall>n. (\<forall>j<n. running (poll env 0 m1 j) \<and> snd (snd (env j (poll env 0 m1 j))) = Returned)
              \<and> \<not> running (poll env 0 m1 n)
            \<longrightarrow> run C now env m names
                  = Some (poll env 0 m1 n, t @ slept env 0 m1 n, Returned)"
  proof (intro allI impI)
    fix n
    assume "(\<forall>j<n. running (poll env 0 m1 j) \<and> snd (snd (env j (poll env 0 m1 j))) = Returned)
              \<and> \<not> running (poll env 0 m1 n)"
    then have "wait_loop env 0 t m1 = Some (poll env 0 m1 n, t @ slept env 0 m1 n, Returned)"
      by (intro wait_loop_returns) simp_all
    then show "run C now env m names = Some (poll env 0 m1 n, t @ slept env 0 m1 n, Returned)"
      by (simp add: run_eq)
  qed
  have raised: "\<forall>n. (\<forall>j<n. running (poll env 0 m1 j) \<and> snd (snd (env j (poll env 0 m1 j))) = Returned)
              \<and> running (poll env 0 m1 n)
              \<and> snd (snd (env n (poll env 0 m1 n))) \<noteq> Returned
            \<longrightarrow> run C now env m names
                  = Some (fst (env n (poll env 0 m1 n)), t @ slept env 0 m1 (Suc n),
                          snd (snd (env n (poll env 0 m1 n))))"
  proof (intro allI impI)
    fix n
    assume a: "(\<forall>j<n. running (poll env 0 m1 j) \<and> snd (snd (env j (poll env 0 m1 j))) = Returned)
              \<and> running (poll env 0 m1 n)
              \<and> snd (snd (env n (poll env 0 m1 n))) \<noteq> Returned"
    have "wait_loop env 0 t m1 =
            Some (fst (env (0 + n) (poll env 0 m1 n)), t @ slept env 0 m1 (Suc n),
                  snd (snd (env (0 + n) (poll env 0 m1 n))))"
      using a by (intro wait_loop_raised) simp_all
    then show "run C now env m names
                  = Some (fst (env n (poll env 0 m1 n)), t @ slept env 0 m1 (Suc n),
                          snd (snd (env n (poll env 0 m1 n))))"
      by (simp add: run_eq)
  qed
  have cleared: "\<forall>m' tr. run C now env m names = Some (m', tr, Returned) \<longrightarrow> \<not> running m'"
  proof (intro allI impI)
    fix m' tr
    assume "run C now env m names = Some (m', tr, Returned)"
    then have "wait_loop env 0 t m1 = Some (m', tr, Returned)" by (simp add: run_eq)
    from wait_loop_SomeD[OF this] show "\<not> running m'" by simp
  qed
  have handler: "\<forall>n C' now'. \<exists>m' te r.
            miner_end C' now' m1 = (m', te, r) \<and> r \<noteq> Returned
          \<and> run C now (signal_during C' now' n) m names
              = Some (m', t @ replicate (Suc n) Sleep @ te, r)
          \<and> (SetRunning False \<in> set te \<longrightarrow> \<not> running m')"
  proof (intro allI)
    fix n C' now'
    obtain m' te r where e: "miner_end C' now' m1 = (m', te, r)"
      by (cases "miner_end C' now' m1") auto
    let ?env = "signal_during C' now' n"
    from end_outcome[OF e] have nr: "r \<noteq> Returned" by auto
    from run_setup_returned[OF assms(2)] have r1: "running m1" by auto
    have p: "poll ?env 0 m1 j = m1" if "j \<le> n" for j
      using that by (simp add: poll_signal)
    have at: "?env n m1 = (m', te, r)"
      by (simp add: e signal_during_def)
    have at_n: "?env n (poll ?env 0 m1 n) = (m', te, r)"
      by (simp add: p at)
    have before: "\<forall>j<n. running (poll ?env 0 m1 j)
                     \<and> snd (snd (?env (0 + j) (poll ?env 0 m1 j))) = Returned"
      by (simp add: p r1 signal_during_def)
    have "wait_loop ?env 0 t m1 =
            Some (fst (?env (0 + n) (poll ?env 0 m1 n)), t @ slept ?env 0 m1 (Suc n),
                  snd (snd (?env (0 + n) (poll ?env 0 m1 n))))"
      using before by (intro wait_loop_raised) (simp_all add: p r1 at nr)
    moreover have "slept ?env 0 m1 (Suc n) = replicate (Suc n) Sleep @ te"
      by (simp only: slept_Suc) (simp add: slept_signal at_n replicate_append_same)
    ultimately have "run C now ?env m names = Some (m', t @ replicate (Suc n) Sleep @ te, r)"
      by (simp add: run_eq at_n)
    moreover from end_flags_cleared[OF e] have "SetRunning False \<in> set te \<longrightarrow> \<not> running m'"
      by blast
    ultimately show "\<exists>m' te r.
            miner_end C' now' m1 = (m', te, r) \<and> r \<noteq> Returned
          \<and> run C now (signal_during C' now' n) m names
              = Some (m', t @ replicate (Suc n) Sleep @ te, r)
          \<and> (SetRunning False \<in> set te \<longrightarrow> \<not> running m')"
      using e nr by blast
  qed
  from blocks returns raised cleared handler show ?thesis by blast
qed

lemma poll_quiet: "poll quiet k m j = m"
  by (induction j arbitrary: k) (simp_all add: quiet_def)

lemma demo_not_running: "\<not> running demo_miner"
  by (simp add: demo_miner_def init_def)

lemma demo_running: "running demo_started"
  by (simp add: demo_started_def)

lemma poll_cleared:
  "poll (cleared_during (Suc 0)) 0 demo_started 0 = demo_started"
  "poll (cleared_during (Suc 0)) 0 demo_started (Suc 0) = demo_started"
  "poll (cleared_during (Suc 0)) 0 demo_started (Suc (Suc 0)) = demo_started\<lparr>running := False\<rparr>"
  by (simp_all add: cleared_during_def)

lemma slept_cleared:
  "slept (cleared_during (Suc 0)) 0 demo_started (Suc (Suc 0)) = [Sleep, Sleep]"
  by (simp add: cleared_during_def)

text \<open>
  The started session with nothing happening, with the flag cleared by another thread
  during the second sleep, and with a signal during the second sleep.
\<close>

theorem run_blocks_until_cleared_witness:
  "\<not> running demo_miner
   \<and> run demo_collab 100 quiet demo_miner [''alice'', ''nobody''] = None
   \<and> run demo_collab 100 (cleared_during (Suc 0)) demo_miner [''alice'', ''nobody'']
       = Some (demo_started\<lparr>running := False\<rparr>, demo_start_effects @ [Sleep, Sleep], Returned)
   \<and> run demo_collab 100 (signal_during demo_collab 160 (Suc 0)) demo_miner
         [''alice'', ''nobody'']
       = Some (demo_ended, demo_start_effects @ [Sleep, Sleep] @ demo_end_effects, SystemExit 0)"
proof -
  note inst = run_blocks_until_cleared[OF demo_not_running demo_setup]
  have "\<forall>j. running (poll quiet 0 demo_started j)
            \<and> snd (snd (quiet j (poll quiet 0 demo_started j))) = Returned"
    by (simp add: poll_quiet demo_running quiet_def)
  with inst[of quiet] have blocked: "run demo_collab 100 quiet demo_miner [''alice'', ''nobody''] = None"
    by blast
  have before: "\<forall>j<Suc (Suc 0). running (poll (cleared_during (Suc 0)) 0 demo_started j)
            \<and> snd (snd (cleared_during (Suc 0) j (poll (cleared_during (Suc 0)) 0 demo_started j)))
                = Returned"
    by (simp add: less_Suc_eq poll_cleared demo_running cleared_during_def)
  have after: "\<not> running (poll (cleared_during (Suc 0)) 0 demo_started (Suc (Suc 0)))"
    by (simp only: poll_cleared) simp
  from inst[of "cleared_during (Suc 0)"] before after
  have "run demo_collab 100 (cleared_during (Suc 0)) demo_miner [''alice'', ''nobody'']
       = Some (poll (cleared_during (Suc 0)) 0 demo_started (Suc (Suc 0)),
               demo_start_effects @ slept (cleared_during (Suc 0)) 0 demo_started (Suc (Suc 0)),
               Returned)"
    by blast
  then have returned: "run demo_collab 100 (cleared_during (Suc 0)) demo_miner [''alice'', ''nobody'']
       = Some (demo_started\<lparr>running := False\<rparr>, demo_start_effects @ [Sleep, Sleep], Returned)"
    by (simp only: poll_cleared slept_cleared)
  from inst[of quiet] obtain m' te r where
    "miner_end demo_collab 160 demo_started = (m', te, r)"
    "run demo_collab 100 (signal_during demo_collab 160 (Suc 0)) demo_miner [''alice'', ''nobody'']
       = Some (m', demo_start_effects @ replicate (Suc (Suc 0)) Sleep @ te, r)"
    by blast
  with demo_end have interrupted:
    "run demo_collab 100 (signal_during demo_collab 160 (Suc 0)) demo_miner [''alice'', ''nobody'']
       = Some (demo_ended, demo_start_effects @ [Sleep, Sleep] @ demo_end_effects, SystemExit 0)"
    by simp
  from demo_not_running blocked returned interrupted show ?thesis by simp
qed

section \<open>A second start\<close>

text \<open>
  Claim C8. Called on a miner whose flag is set, \<^verbatim>\<open>run\<close>, and \<^verbatim>\<open>mine\<close> which calls it,
  return at once: the miner is the same in every field and the only effect is the error
  line of the log.
\<close>

theorem run_while_running:
  assumes "running m"
  shows "run C now env m names = Some (m, [LogError multiple_session_message], Returned)
     \<and> mine C now env m names = Some (m, [LogError multiple_session_message], Returned)"
  using assms by (simp add: run_def mine_def)

theorem run_while_running_witness:
  "running demo_started
   \<and> run demo_collab 200 quiet demo_started [''bob'']
       = Some (demo_started, [LogError multiple_session_message], Returned)
   \<and> mine demo_collab 200 quiet demo_started [''bob'']
       = Some (demo_started, [LogError multiple_session_message], Returned)"
  using run_while_running[OF demo_running, of demo_collab 200 quiet "[''bob'']"] demo_running
  by simp

section \<open>The snapshot and the streamers\<close>

lemma miner_end_streamers:
  "streamers (fst (miner_end C now m)) = streamers m"
  "original_streamers (fst (miner_end C now m)) = original_streamers m"
  by (auto simp: miner_end_def Let_def split: option.splits sum.splits prod.splits outcome.splits)

lemma apply_event_identity:
  "\<forall>ev s. username (apply_event ev s) = username s \<and> channel_id (apply_event ev s) = channel_id s"
proof (intro allI)
  fix ev s
  show "username (apply_event ev s) = username s \<and> channel_id (apply_event ev s) = channel_id s"
    by (cases ev) simp_all
qed

text \<open>
  Claim C10. The snapshot is taken as a copy of the streamer list. From then on, with
  events handled on the streamer objects in place by a handler that leaves the name and
  the channel id alone, the two lists have the same length and, at every index, the same
  name and channel id; the shutdown changes neither list, so the report subtracts the
  snapshot of a streamer from that same streamer.
\<close>

theorem snapshot_pairs_streamers:
  assumes "run_setup C now m names = (m1, t, Returned)"
    and "\<forall>ev s. username (h ev s) = username s \<and> channel_id (h ev s) = channel_id s"
  shows "original_streamers m1 = streamers m1
     \<and> length (original_streamers (dispatch_all h evs m1))
         = length (streamers (dispatch_all h evs m1))
     \<and> (\<forall>i<length (streamers (dispatch_all h evs m1)).
           username (original_streamers (dispatch_all h evs m1) ! i)
             = username (streamers (dispatch_all h evs m1) ! i)
         \<and> channel_id (original_streamers (dispatch_all h evs m1) ! i)
             = channel_id (streamers (dispatch_all h evs m1) ! i))
     \<and> streamers (fst (miner_end C' now' (dispatch_all h evs m1)))
         = streamers (dispatch_all h evs m1)
     \<and> original_streamers (fst (miner_end C' now' (dispatch_all h evs m1)))
         = original_streamers (dispatch_all h evs m1)"
proof -
  let ?m2 = "dispatch_all h evs m1"
  from run_setup_returned[OF assms(1)] have snap: "original_streamers m1 = streamers m1"
    by auto
  have os: "original_streamers ?m2 = streamers m1"
    by (simp add: dispatch_all_frame snap)
  have len: "length (streamers ?m2) = length (streamers m1)"
    by (simp add: dispatch_all_frame)
  have names: "map username (streamers ?m2) = map username (streamers m1)"
    and ids: "map channel_id (streamers ?m2) = map channel_id (streamers m1)"
    using dispatch_all_identity[OF assms(2)] by blast+
  have pair: "\<forall>i<length (streamers ?m2).
           username (original_streamers ?m2 ! i) = username (streamers ?m2 ! i)
         \<and> channel_id (original_streamers ?m2 ! i) = channel_id (streamers ?m2 ! i)"
  proof (intro allI impI)
    fix i assume i: "i < length (streamers ?m2)"
    with len have i1: "i < length (streamers m1)" by simp
    from i i1 names have "username (streamers ?m2 ! i) = username (streamers m1 ! i)"
      by (metis nth_map)
    moreover from i i1 ids have "channel_id (streamers ?m2 ! i) = channel_id (streamers m1 ! i)"
      by (metis nth_map)
    ultimately show "username (original_streamers ?m2 ! i) = username (streamers ?m2 ! i)
         \<and> channel_id (original_streamers ?m2 ! i) = channel_id (streamers ?m2 ! i)"
      by (simp add: os)
  qed
  from snap os len pair show ?thesis
    by (simp add: miner_end_streamers)
qed

theorem snapshot_pairs_streamers_witness:
  "original_streamers demo_started = streamers demo_started
   \<and> map username (original_streamers
        (dispatch_all apply_event [BalanceChanged 123 540 ''WATCH'' 40] demo_started))
       = [''alice'']
   \<and> username (original_streamers
        (dispatch_all apply_event [BalanceChanged 123 540 ''WATCH'' 40] demo_started) ! 0)
       = username (streamers
        (dispatch_all apply_event [BalanceChanged 123 540 ''WATCH'' 40] demo_started) ! 0)
   \<and> channel_points (streamers
        (dispatch_all apply_event [BalanceChanged 123 540 ''WATCH'' 40] demo_started) ! 0) = 540"
proof -
  let ?m2 = "dispatch_all apply_event [BalanceChanged 123 540 ''WATCH'' 40] demo_started"
  note inst = snapshot_pairs_streamers[OF demo_setup apply_event_identity,
      of "[BalanceChanged 123 540 ''WATCH'' 40]" demo_collab 160]
  have l: "0 < length (streamers ?m2)"
    by (simp add: dispatch_all_def dispatch_def demo_started_def)
  from inst l have "username (original_streamers ?m2 ! 0) = username (streamers ?m2 ! 0)"
    by blast
  moreover from inst have "original_streamers demo_started = streamers demo_started" by blast
  moreover have "map username (original_streamers ?m2) = [''alice'']"
    by (simp add: dispatch_all_def dispatch_def demo_started_def alice_def)
  moreover have "channel_points (streamers ?m2 ! 0) = 540"
    by (simp add: dispatch_all_def dispatch_def demo_started_def alice_def)
  ultimately show ?thesis by simp
qed

end
